theory Spec2Isabelle
  imports Main "HOL-Library.AList"
begin

section \<open>Python values and errors\<close>

text \<open>
  The context of pysuerga is the mapping that \<^verbatim>\<open>yaml.safe_load\<close> returns: string keys,
  and values that are scalars, lists or further mappings. The preprocessors read it with
  run-time type tests (\<^verbatim>\<open>isinstance(item['target'], list)\<close>) and store \<^verbatim>\<open>datetime\<close>
  objects in it, so a value is a tagged union. A dict keeps its insertion order and is an
  association list; \<open>'d\<close> is the type of \<^verbatim>\<open>datetime\<close> objects. Floats are left out, and
  so are objects shared between two places of the mapping (YAML aliases): a value is a tree.
  Text is a \<open>string\<close>; the operations of the source that are modelled here
  (\<^verbatim>\<open>replace(' ', '-')\<close>, \<^verbatim>\<open>lstrip('v')\<close>, comparison, concatenation) touch ASCII
  characters only.
\<close>

datatype 'd pyval =
    PNone
  | PBool bool
  | PInt int
  | PStr string
  | PList "'d pyval list"
  | PDict "(string \<times> 'd pyval) list"
  | PDateTime 'd

text \<open>Every \<^verbatim>\<open>raise\<close> of the source and of the Python operations it uses is a value.\<close>

datatype error =
    KeyError string
  | TypeError
  | AttributeError
  | ValueError
  | IndexError
  | HTTPError int
  | AssertionError string
  | OSError

definition bind :: "error + 'a \<Rightarrow> ('a \<Rightarrow> error + 'b) \<Rightarrow> error + 'b" where
  "bind m f = (case m of Inl e \<Rightarrow> Inl e | Inr x \<Rightarrow> f x)"

text \<open>\<^verbatim>\<open>v[k]\<close> for a string key \<open>k\<close>: only a dict can be read that way.\<close>

fun py_getitem :: "'d pyval \<Rightarrow> string \<Rightarrow> error + 'd pyval" where
  "py_getitem (PDict kvs) k = (case map_of kvs k of None \<Rightarrow> Inl (KeyError k) | Some v \<Rightarrow> Inr v)"
| "py_getitem _ k = Inl TypeError"

text \<open>\<^verbatim>\<open>v[k] = x\<close> for a string key \<open>k\<close>: a present key keeps its place, a new one goes last.\<close>

fun py_setitem :: "'d pyval \<Rightarrow> string \<Rightarrow> 'd pyval \<Rightarrow> error + 'd pyval" where
  "py_setitem (PDict kvs) k x = Inr (PDict (AList.update k x kvs))"
| "py_setitem _ k x = Inl TypeError"

text \<open>What a \<^verbatim>\<open>for\<close> loop sees: the items of a list, the keys of a dict, the characters of a str.\<close>

fun py_iter :: "'d pyval \<Rightarrow> error + 'd pyval list" where
  "py_iter (PList xs) = Inr xs"
| "py_iter (PDict kvs) = Inr (map (\<lambda>kv. PStr (fst kv)) kvs)"
| "py_iter (PStr s) = Inr (map (\<lambda>c. PStr [c]) s)"
| "py_iter _ = Inl TypeError"

text \<open>Truth value of an object in a condition.\<close>

fun truthy :: "'d pyval \<Rightarrow> bool" where
  "truthy PNone = False"
| "truthy (PBool b) = b"
| "truthy (PInt i) = (i \<noteq> 0)"
| "truthy (PStr s) = (s \<noteq> [])"
| "truthy (PList xs) = (xs \<noteq> [])"
| "truthy (PDict kvs) = (kvs \<noteq> [])"
| "truthy (PDateTime d) = True"

text \<open>\<^verbatim>\<open>isinstance(v, list)\<close>\<close>

fun is_list :: "'d pyval \<Rightarrow> bool" where
  "is_list (PList xs) = True"
| "is_list _ = False"

section \<open>Navbar shaping\<close>

text \<open>\<^verbatim>\<open>s.replace(' ', '-')\<close>\<close>

definition replace_space :: "string \<Rightarrow> string" where
  "replace_space s = map (\<lambda>c. if c = CHR '' '' then CHR ''-'' else c) s"

text \<open>
  \<^verbatim>\<open>item['name'].replace(' ', '-').lower()\<close>. A str has the method; a \<^verbatim>\<open>datetime\<close> has a
  \<^verbatim>\<open>replace\<close> of its own that rejects the arguments; nothing else has the attribute.
  \<^verbatim>\<open>str.lower\<close> follows the Unicode tables of the interpreter and is the parameter
  \<open>lower\<close>.
\<close>

fun slug_of :: "(string \<Rightarrow> string) \<Rightarrow> 'd pyval \<Rightarrow> error + 'd pyval" where
  "slug_of lower (PStr s) = Inr (PStr (lower (replace_space s)))"
| "slug_of lower (PDateTime d) = Inl TypeError"
| "slug_of lower _ = Inl AttributeError"

text \<open>
  The right-hand side of the assignment in the loop,
  \<^verbatim>\<open>dict(item, has_subitems=isinstance(item['target'], list), slug=...)\<close>:
  the arguments are evaluated left to right, then the copy of \<open>item\<close> gets the two keys.
\<close>

definition navbar_item :: "(string \<Rightarrow> string) \<Rightarrow> 'd pyval \<Rightarrow> error + 'd pyval" where
  "navbar_item lower item =
     bind (py_getitem item ''target'') (\<lambda>target.
     bind (py_getitem item ''name'') (\<lambda>name.
     bind (slug_of lower name) (\<lambda>slug.
     bind (py_setitem item ''has_subitems'' (PBool (is_list target))) (\<lambda>item1.
     py_setitem item1 ''slug'' slug))))"

text \<open>
  \<^verbatim>\<open>for i, item in enumerate(context['navbar']): context['navbar'][i] = ...\<close> on a list:
  the loop reads position \<open>i\<close> of the list it is writing to.
\<close>

function navbar_loop :: "(string \<Rightarrow> string) \<Rightarrow> nat \<Rightarrow> 'd pyval list \<Rightarrow> error + 'd pyval list" where
  "navbar_loop lower i xs =
     (if i < length xs
      then (case navbar_item lower (xs ! i) of
              Inl e \<Rightarrow> Inl e
            | Inr item' \<Rightarrow> navbar_loop lower (Suc i) (xs[i := item']))
      else Inr xs)"
  by pat_completeness auto
termination
  by (relation "measure (\<lambda>(lower, i, xs). length xs - i)") auto

text \<open>
  When \<^verbatim>\<open>context['navbar']\<close> is not a list, the loop still iterates over it (the keys of
  a dict, the characters of a str); its first item is a str, on which \<^verbatim>\<open>item['target']\<close>
  raises, so the assignment is never reached.
\<close>

definition navbar_add_info :: "(string \<Rightarrow> string) \<Rightarrow> 'd pyval \<Rightarrow> error + 'd pyval" where
  "navbar_add_info lower context =
     bind (py_getitem context ''navbar'') (\<lambda>navbar.
       case navbar of
         PList xs \<Rightarrow>
           bind (navbar_loop lower 0 xs) (\<lambda>xs'. py_setitem context ''navbar'' (PList xs'))
       | _ \<Rightarrow>
           bind (py_iter navbar) (\<lambda>items.
             case items of
               [] \<Rightarrow> Inr context
             | item # _ \<Rightarrow> bind (navbar_item lower item) (\<lambda>_. Inl TypeError)))"

section \<open>Blog aggregation\<close>

text \<open>
  What \<^verbatim>\<open>feedparser.parse\<close> returns, as far as the source reads it: the entries, and
  \<^verbatim>\<open>feed_data['feed']['title']\<close>. An attribute or key that the feed does not have is
  \<open>None\<close>; reading it raises. \<open>'p\<close> is the type of \<^verbatim>\<open>published_parsed\<close>.
\<close>

record ('p, 'd) entry =
  e_title :: "'d pyval option"
  e_author :: "'d pyval option"
  e_published_parsed :: "'p option"
  e_link :: "'d pyval option"
  e_description :: "'d pyval option"
  e_summary :: "'d pyval option"

record ('p, 'd) feed_data =
  entries :: "('p, 'd) entry list"
  feed_title :: "'d pyval option"

text \<open>The dict appended to \<open>posts\<close>; its keys are fixed, so it is a record until it is stored.\<close>

record 'd post =
  p_title :: "'d pyval"
  p_author :: "'d pyval"
  p_published :: 'd
  p_feed :: "'d pyval"
  p_link :: "'d pyval"
  p_description :: "'d pyval"
  p_summary :: "'d pyval"

definition post_dict :: "'d post \<Rightarrow> 'd pyval" where
  "post_dict p = PDict [(''title'', p_title p), (''author'', p_author p),
                        (''published'', PDateTime (p_published p)), (''feed'', p_feed p),
                        (''link'', p_link p), (''description'', p_description p),
                        (''summary'', p_summary p)]"

definition attr :: "'a option \<Rightarrow> error + 'a" where
  "attr a = (case a of None \<Rightarrow> Inl AttributeError | Some v \<Rightarrow> Inr v)"

text \<open>
  One entry. \<open>to_datetime\<close> stands for
  \<^verbatim>\<open>datetime.datetime.fromtimestamp(time.mktime(...))\<close>, evaluated first; the values of
  the dict follow in the order they are written.
\<close>

definition entry_post ::
  "('p \<Rightarrow> error + 'd) \<Rightarrow> ('p, 'd) feed_data \<Rightarrow> ('p, 'd) entry \<Rightarrow> error + 'd post" where
  "entry_post to_datetime fd e =
     bind (attr (e_published_parsed e)) (\<lambda>pp.
     bind (to_datetime pp) (\<lambda>published.
     bind (attr (e_title e)) (\<lambda>title.
     bind (attr (e_author e)) (\<lambda>author.
     bind (case feed_title fd of None \<Rightarrow> Inl (KeyError ''title'') | Some t \<Rightarrow> Inr t) (\<lambda>feed.
     bind (attr (e_link e)) (\<lambda>link.
     bind (attr (e_description e)) (\<lambda>description.
     bind (attr (e_summary e)) (\<lambda>summary.
     Inr \<lparr>p_title = title, p_author = author, p_published = published, p_feed = feed,
          p_link = link, p_description = description, p_summary = summary\<rparr>))))))))"

fun entries_loop ::
  "('p \<Rightarrow> error + 'd) \<Rightarrow> ('p, 'd) feed_data \<Rightarrow> ('p, 'd) entry list \<Rightarrow> 'd post list
     \<Rightarrow> error + 'd post list" where
  "entries_loop to_datetime fd [] posts = Inr posts"
| "entries_loop to_datetime fd (e # es) posts =
     bind (entry_post to_datetime fd e) (\<lambda>p. entries_loop to_datetime fd es (posts @ [p]))"

text \<open>
  The loop over the feed URLs. \<open>parse i url\<close> is what the \<open>i\<close>-th call of
  \<^verbatim>\<open>feedparser.parse\<close> of the run returns, on \<open>url\<close>.
\<close>

fun feeds_loop ::
  "(nat \<Rightarrow> 'd pyval \<Rightarrow> error + ('p, 'd) feed_data) \<Rightarrow> ('p \<Rightarrow> error + 'd) \<Rightarrow> nat \<Rightarrow> 'd pyval list
     \<Rightarrow> 'd post list \<Rightarrow> error + 'd post list" where
  "feeds_loop parse to_datetime i [] posts = Inr posts"
| "feeds_loop parse to_datetime i (feed_url # urls) posts =
     bind (parse i feed_url) (\<lambda>fd.
     bind (entries_loop to_datetime fd (entries fd) posts) (\<lambda>posts'.
     feeds_loop parse to_datetime (Suc i) urls posts'))"

text \<open>
  \<^verbatim>\<open>posts.sort(key=operator.itemgetter('published'), reverse=True)\<close>: a stable sort on the
  reversed key order, which is the stable ascending sort of the reversed list, reversed.
\<close>

definition sort_posts :: "('d::linorder) post list \<Rightarrow> 'd post list" where
  "sort_posts posts = rev (sort_key p_published (rev posts))"

text \<open>
  \<^verbatim>\<open>xs[:n]\<close>: \<open>None\<close> keeps the list, a negative \<open>n\<close> counts from the end, a bool is an
  int, anything else is no index.
\<close>

fun py_slice_to :: "'a list \<Rightarrow> 'd pyval \<Rightarrow> error + 'a list" where
  "py_slice_to xs PNone = Inr xs"
| "py_slice_to xs (PInt n) =
     Inr (if 0 \<le> n then take (nat n) xs else take (length xs - nat (- n)) xs)"
| "py_slice_to xs (PBool b) = Inr (take (if b then 1 else 0) xs)"
| "py_slice_to xs _ = Inl TypeError"

definition blog_add_posts ::
  "(nat \<Rightarrow> 'd pyval \<Rightarrow> error + ('p, 'd) feed_data) \<Rightarrow> ('p \<Rightarrow> error + ('d::linorder))
     \<Rightarrow> 'd pyval \<Rightarrow> error + 'd pyval" where
  "blog_add_posts parse to_datetime context =
     bind (py_getitem context ''blog'') (\<lambda>blog.
     bind (py_getitem blog ''feed'') (\<lambda>feed.
     bind (py_iter feed) (\<lambda>urls.
     bind (feeds_loop parse to_datetime 0 urls []) (\<lambda>posts.
     bind (py_getitem blog ''num_posts'') (\<lambda>num_posts.
     bind (py_slice_to (sort_posts posts) num_posts) (\<lambda>kept.
     bind (py_setitem blog ''posts'' (PList (map post_dict kept))) (\<lambda>blog'.
     py_setitem context ''blog'' blog')))))))"

section \<open>Maintainer lookup\<close>

text \<open>What the source reads of a \<^verbatim>\<open>requests\<close> response; \<open>json\<close> is the result of \<^verbatim>\<open>resp.json()\<close>.\<close>

record 'd response =
  status_code :: int
  json :: "error + 'd pyval"

text \<open>\<^verbatim>\<open>resp.raise_for_status()\<close> raises on the client and server error codes.\<close>

definition raise_for_status :: "'d response \<Rightarrow> error + unit" where
  "raise_for_status resp =
     (if 400 \<le> status_code resp \<and> status_code resp < 600
      then Inl (HTTPError (status_code resp)) else Inr ())"

text \<open>\<^verbatim>\<open>f'https://api.github.com/users/{user}'\<close>; \<open>py_str\<close> is the text of a value.\<close>

definition user_url :: "('d pyval \<Rightarrow> string) \<Rightarrow> 'd pyval \<Rightarrow> string" where
  "user_url py_str user = ''https://api.github.com/users/'' @ py_str user"

text \<open>
  The loop over the usernames, with the list \<open>people\<close> it appends to. \<open>get i url\<close> is what
  the \<open>i\<close>-th \<^verbatim>\<open>requests.get\<close> of the loop returns, on \<open>url\<close>. The \<^verbatim>\<open>return context\<close> on
  a 403 leaves the loop with what \<open>people\<close> holds.
\<close>

fun maintainers_loop ::
  "('d pyval \<Rightarrow> string) \<Rightarrow> (nat \<Rightarrow> string \<Rightarrow> error + 'd response) \<Rightarrow> nat \<Rightarrow> 'd pyval list
     \<Rightarrow> 'd pyval list \<Rightarrow> error + 'd pyval list" where
  "maintainers_loop py_str get i [] people = Inr people"
| "maintainers_loop py_str get i (user # users) people =
     bind (get i (user_url py_str user)) (\<lambda>resp.
       if status_code resp = 403 then Inr people
       else bind (raise_for_status resp) (\<lambda>_.
            bind (json resp) (\<lambda>profile.
            maintainers_loop py_str get (Suc i) users (people @ [profile]))))"

definition maintainers_add_info ::
  "('d pyval \<Rightarrow> string) \<Rightarrow> (nat \<Rightarrow> string \<Rightarrow> error + 'd response) \<Rightarrow> 'd pyval \<Rightarrow> error + 'd pyval" where
  "maintainers_add_info py_str get context =
     bind (py_getitem context ''maintainers'') (\<lambda>maintainers.
     bind (py_setitem maintainers ''people'' (PList [])) (\<lambda>maintainers1.
     bind (py_getitem maintainers1 ''active'') (\<lambda>active.
     bind (py_iter active) (\<lambda>users.
     bind (maintainers_loop py_str get 0 users []) (\<lambda>people.
     bind (py_setitem maintainers1 ''people'' (PList people)) (\<lambda>maintainers2.
     py_setitem context ''maintainers'' maintainers2))))))"

section \<open>Release lookup\<close>

text \<open>\<^verbatim>\<open>tag.lstrip('v')\<close> removes every leading \<open>v\<close>; only a str has the method.\<close>

fun lstrip_v :: "'d pyval \<Rightarrow> error + 'd pyval" where
  "lstrip_v (PStr s) = Inr (PStr (dropWhile (\<lambda>c. c = CHR ''v'') s))"
| "lstrip_v _ = Inl AttributeError"

text \<open>\<^verbatim>\<open>v[0]\<close>\<close>

fun py_first :: "'d pyval \<Rightarrow> error + 'd pyval" where
  "py_first (PList xs) = (case xs of [] \<Rightarrow> Inl IndexError | x # _ \<Rightarrow> Inr x)"
| "py_first (PStr s) = (case s of [] \<Rightarrow> Inl IndexError | c # _ \<Rightarrow> Inr (PStr [c]))"
| "py_first (PDict kvs) = Inl (KeyError ''0'')"
| "py_first _ = Inl TypeError"

text \<open>
  The body of the loop over the releases: \<open>None\<close> for the \<^verbatim>\<open>continue\<close> of a pre-release,
  else the dict that is appended. \<open>strptime\<close> stands for
  \<^verbatim>\<open>datetime.datetime.strptime(..., '%Y-%m-%dT%H:%M:%SZ')\<close>.
\<close>

definition release_entry ::
  "('d pyval \<Rightarrow> error + 'd) \<Rightarrow> 'd pyval \<Rightarrow> error + 'd pyval option" where
  "release_entry strptime release =
     bind (py_getitem release ''prerelease'') (\<lambda>prerelease.
       if truthy prerelease then Inr None
       else
         bind (py_getitem release ''published_at'') (\<lambda>published_at.
         bind (strptime published_at) (\<lambda>published.
         bind (py_getitem release ''tag_name'') (\<lambda>tag_name.
         bind (lstrip_v tag_name) (\<lambda>name.
         bind (py_getitem release ''assets'') (\<lambda>assets.
         bind (if truthy assets
               then bind (py_first assets) (\<lambda>asset. py_getitem asset ''browser_download_url'')
               else Inr (PStr [])) (\<lambda>url.
         Inr (Some (PDict [(''name'', name), (''tag'', tag_name),
                           (''published'', PDateTime published), (''url'', url)])))))))))"

fun releases_loop ::
  "('d pyval \<Rightarrow> error + 'd) \<Rightarrow> 'd pyval list \<Rightarrow> 'd pyval list \<Rightarrow> error + 'd pyval list" where
  "releases_loop strptime [] releases = Inr releases"
| "releases_loop strptime (release # rest) releases =
     bind (release_entry strptime release) (\<lambda>r.
       case r of
         None \<Rightarrow> releases_loop strptime rest releases
       | Some d \<Rightarrow> releases_loop strptime rest (releases @ [d]))"

definition releases_url :: string where
  "releases_url = ''https://api.github.com/repos/pandas-dev/pandas/releases''"

definition home_add_releases ::
  "('d pyval \<Rightarrow> error + 'd) \<Rightarrow> (string \<Rightarrow> error + 'd response) \<Rightarrow> 'd pyval \<Rightarrow> error + 'd pyval" where
  "home_add_releases strptime get context =
     bind (py_setitem context ''releases'' (PList [])) (\<lambda>context1.
     bind (get releases_url) (\<lambda>resp.
       if status_code resp = 403 then Inr context1
       else
         bind (raise_for_status resp) (\<lambda>_.
         bind (json resp) (\<lambda>listing.
         bind (py_iter listing) (\<lambda>items.
         bind (releases_loop strptime items []) (\<lambda>releases.
         py_setitem context1 ''releases'' (PList releases)))))))"

section \<open>The context loader\<close>

text \<open>\<^verbatim>\<open>context.update(kwargs)\<close>: of the values here only a dict has the method.\<close>

fun py_update :: "'d pyval \<Rightarrow> (string \<times> 'd pyval) list \<Rightarrow> error + 'd pyval" where
  "py_update (PDict kvs) kwargs =
     Inr (PDict (foldl (\<lambda>d kv. AList.update (fst kv) (snd kv) d) kvs kwargs))"
| "py_update _ kwargs = Inl AttributeError"

text \<open>
  A preprocessor is a function with its \<^verbatim>\<open>__name__\<close>; a function that ends without a
  \<^verbatim>\<open>return\<close> gives \<open>PNone\<close>.
\<close>

type_synonym 'd preprocessor = "string \<times> ('d pyval \<Rightarrow> error + 'd pyval)"

fun run_preprocessors :: "'d preprocessor list \<Rightarrow> 'd pyval \<Rightarrow> error + 'd pyval" where
  "run_preprocessors [] context = Inr context"
| "run_preprocessors (preprocessor # rest) context =
     bind (snd preprocessor context) (\<lambda>context'.
       if context' = PNone
       then Inl (AssertionError (fst preprocessor @ '' is missing the return statement''))
       else run_preprocessors rest context')"

text \<open>
  \<open>safe_load\<close> stands for opening the file and \<^verbatim>\<open>yaml.safe_load\<close>: the value read from
  the file of that name, or the error raised.
\<close>

definition get_context ::
  "(string \<Rightarrow> error + 'd pyval) \<Rightarrow> string \<Rightarrow> 'd preprocessor list \<Rightarrow> (string \<times> 'd pyval) list
     \<Rightarrow> error + 'd pyval" where
  "get_context safe_load config_fname preprocessors kwargs =
     bind (safe_load config_fname) (\<lambda>context.
     bind (py_update context kwargs) (\<lambda>context1.
     run_preprocessors preprocessors context1))"

section \<open>Paths\<close>

text \<open>
  The functions of \<^verbatim>\<open>os.path\<close> (its POSIX variant) that the source calls, written after
  the library's code. \<open>rfind p c\<close> is \<^verbatim>\<open>p.rfind(c)\<close>: the last position of \<open>c\<close>, or \<open>-1\<close>.
\<close>

definition rfind :: "string \<Rightarrow> char \<Rightarrow> int" where
  "rfind p c =
     (if c \<in> set p then int (length p) - 1 - int (length (takeWhile (\<lambda>x. x \<noteq> c) (rev p)))
      else - 1)"

definition startswith_sep :: "string \<Rightarrow> bool" where
  "startswith_sep b = (case b of [] \<Rightarrow> False | c # _ \<Rightarrow> c = CHR ''/'')"

definition endswith_sep :: "string \<Rightarrow> bool" where
  "endswith_sep a = (case rev a of [] \<Rightarrow> False | c # _ \<Rightarrow> c = CHR ''/'')"

text \<open>\<^verbatim>\<open>os.path.join(a, b)\<close>\<close>

definition os_path_join :: "string \<Rightarrow> string \<Rightarrow> string" where
  "os_path_join a b =
     (if startswith_sep b then b
      else if a = [] \<or> endswith_sep a then a @ b
      else a @ ''/'' @ b)"

text \<open>\<^verbatim>\<open>s.rstrip('/')\<close>\<close>

definition rstrip_sep :: "string \<Rightarrow> string" where
  "rstrip_sep s = rev (dropWhile (\<lambda>c. c = CHR ''/'') (rev s))"

definition os_path_dirname :: "string \<Rightarrow> string" where
  "os_path_dirname p =
     (let i = nat (rfind p CHR ''/'' + 1); head = take i p
      in if head \<noteq> [] \<and> head \<noteq> replicate (length head) CHR ''/'' then rstrip_sep head
         else head)"

definition os_path_basename :: "string \<Rightarrow> string" where
  "os_path_basename p = drop (nat (rfind p CHR ''/'' + 1)) p"

text \<open>
  \<^verbatim>\<open>os.path.splitext(p)\<close>: the extension starts at the last dot of the last component,
  unless only dots stand before it there.
\<close>

definition os_path_splitext :: "string \<Rightarrow> string \<times> string" where
  "os_path_splitext p =
     (let sepIndex = rfind p CHR ''/''; dotIndex = rfind p CHR ''.''
      in if dotIndex > sepIndex \<and>
            list_ex (\<lambda>k. p ! k \<noteq> CHR ''.'') [nat (sepIndex + 1) ..< nat dotIndex]
         then (take (nat dotIndex) p, drop (nat dotIndex) p)
         else (p, []))"

text \<open>\<^verbatim>\<open>s.split('/')\<close>\<close>

fun split_sep :: "string \<Rightarrow> string list" where
  "split_sep [] = [[]]"
| "split_sep (c # cs) =
     (if c = CHR ''/'' then [] # split_sep cs
      else (case split_sep cs of [] \<Rightarrow> [[c]] | x # xs \<Rightarrow> (c # x) # xs))"

text \<open>\<^verbatim>\<open>os.path.commonprefix\<close> of two lists of path components.\<close>

fun commonprefix :: "'a list \<Rightarrow> 'a list \<Rightarrow> 'a list" where
  "commonprefix (x # xs) (y # ys) = (if x = y then x # commonprefix xs ys else [])"
| "commonprefix _ _ = []"

text \<open>
  \<^verbatim>\<open>os.path.relpath(path, start)\<close>. \<open>abspath\<close> is \<^verbatim>\<open>os.path.abspath\<close>, which depends on the
  working directory of the process.
\<close>

definition os_path_relpath :: "(string \<Rightarrow> string) \<Rightarrow> string \<Rightarrow> string \<Rightarrow> error + string" where
  "os_path_relpath abspath path start =
     (if path = [] then Inl ValueError
      else
        let start_list = filter (\<lambda>x. x \<noteq> []) (split_sep (abspath start));
            path_list = filter (\<lambda>x. x \<noteq> []) (split_sep (abspath path));
            i = length (commonprefix start_list path_list);
            rel_list = replicate (length start_list - i) ''..'' @ drop i path_list
        in (case rel_list of
              [] \<Rightarrow> Inr ''.''
            | a # p \<Rightarrow> Inr (foldl os_path_join a p)))"

section \<open>The source walker\<close>

text \<open>
  A directory as \<^verbatim>\<open>os.walk\<close> lists it: the names of its files, and its subdirectories
  by name, each in the order of the listing. Symbolic links are left out.
\<close>

datatype dir = Dir (d_files: "string list") (d_dirs: "(string \<times> dir) list")

fun walk_dir :: "string \<Rightarrow> dir \<Rightarrow> (string \<times> string list \<times> string list) list" where
  "walk_dir root (Dir fnames subdirs) =
     (root, map fst subdirs, fnames) #
     concat (map (\<lambda>sub. walk_dir (os_path_join root (fst sub)) (snd sub)) subdirs)"

text \<open>\<^verbatim>\<open>os.walk(root)\<close>, top-down. The empty path names no directory: nothing is yielded.\<close>

definition os_walk :: "string \<Rightarrow> dir \<Rightarrow> (string \<times> string list \<times> string list) list" where
  "os_walk root d = (if root = [] then [] else walk_dir root d)"

fun source_files_loop ::
  "(string \<Rightarrow> string) \<Rightarrow> string \<Rightarrow> (string \<times> string list \<times> string list) list
     \<Rightarrow> error + string list" where
  "source_files_loop abspath source_path [] = Inr []"
| "source_files_loop abspath source_path (triple # rest) =
     bind (os_path_relpath abspath (fst triple) source_path) (\<lambda>root.
     bind (source_files_loop abspath source_path rest) (\<lambda>more.
     Inr (map (os_path_join root) (snd (snd triple)) @ more)))"

text \<open>
  The generator, as the list of the paths it yields. \<^verbatim>\<open>relpath\<close> raises on an empty path
  only, and no directory that \<^verbatim>\<open>os.walk\<close> visits has one.
\<close>

definition get_source_files :: "(string \<Rightarrow> string) \<Rightarrow> string \<Rightarrow> dir \<Rightarrow> error + string list" where
  "get_source_files abspath source_path d =
     source_files_loop abspath source_path (os_walk source_path d)"

section \<open>The file system\<close>

text \<open>
  The files (path and content) and directories that the run reads and writes, under the
  path each is opened with, and the lines written to the diagnostic stream. The listing of
  the source directory is the \<open>dir\<close> above; what a file holds is read here.
\<close>

record world =
  files :: "(string \<times> string) list"
  dirs :: "string list"
  stderr :: "string list"

definition read_file :: "world \<Rightarrow> string \<Rightarrow> error + string" where
  "read_file w path = (case map_of (files w) path of None \<Rightarrow> Inl OSError | Some c \<Rightarrow> Inr c)"

definition write_file :: "world \<Rightarrow> string \<Rightarrow> string \<Rightarrow> error + world" where
  "write_file w path content =
     (if path \<in> set (dirs w) then Inl OSError
      else Inr (w\<lparr>files := AList.update path content (files w)\<rparr>))"

definition startswith :: "string \<Rightarrow> string \<Rightarrow> bool" where
  "startswith s pre = (take (length pre) s = pre)"

text \<open>\<^verbatim>\<open>shutil.rmtree(path, ignore_errors=True)\<close>: what lies below the directory goes; a path
  that is no directory stays as it is.\<close>

definition shutil_rmtree :: "world \<Rightarrow> string \<Rightarrow> world" where
  "shutil_rmtree w path =
     (if path = [] \<or> map_of (files w) path \<noteq> None then w
      else w\<lparr>files := filter (\<lambda>f. \<not> startswith (fst f) (os_path_join path [])) (files w),
             dirs := filter (\<lambda>d. d \<noteq> path \<and> \<not> startswith d (os_path_join path [])) (dirs w)\<rparr>)"

text \<open>\<^verbatim>\<open>os.makedirs(path, exist_ok=True)\<close>\<close>

definition os_makedirs :: "world \<Rightarrow> string \<Rightarrow> error + world" where
  "os_makedirs w path =
     (if path = [] \<or> map_of (files w) path \<noteq> None then Inl OSError
      else Inr (w\<lparr>dirs := List.insert path (dirs w)\<rparr>))"

text \<open>\<^verbatim>\<open>shutil.copy(src, dst)\<close>: into \<open>dst\<close> when that is a directory, under the name of \<open>src\<close>.\<close>

definition shutil_copy :: "world \<Rightarrow> string \<Rightarrow> string \<Rightarrow> error + world" where
  "shutil_copy w src dst =
     (let dst' = (if dst \<in> set (dirs w) then os_path_join dst (os_path_basename src) else dst)
      in bind (read_file w src) (\<lambda>content.
         if dst' = src then Inl OSError else write_file w dst' content))"

section \<open>The driver\<close>

text \<open>\<^verbatim>\<open>fname in v\<close> for a str \<open>fname\<close>: an item of a list, a key of a dict, a part of a str.\<close>

fun is_substring :: "string \<Rightarrow> string \<Rightarrow> bool" where
  "is_substring s [] = (s = [])"
| "is_substring s (c # cs) = (startswith (c # cs) s \<or> is_substring s cs)"

fun py_contains :: "'d pyval \<Rightarrow> string \<Rightarrow> error + bool" where
  "py_contains (PList xs) fname = Inr (PStr fname \<in> set xs)"
| "py_contains (PDict kvs) fname = Inr (fname \<in> set (map fst kvs))"
| "py_contains (PStr s) fname = Inr (is_substring fname s)"
| "py_contains _ fname = Inl TypeError"

text \<open>
  What the run takes from outside the repository: the libraries it calls and the services
  they reach. \<open>ext_users_get e i url\<close> is the response to the \<open>i\<close>-th profile request,
  \<open>ext_releases_get e url\<close> the response to the request for the releases; \<open>ext_decode\<close>
  and \<open>ext_encode\<close> are the text encoding of the files; \<open>ext_yaml_safe_load\<close>,
  \<open>ext_markdown\<close> and \<open>ext_render\<close> (templates directory, template text, context) are the
  three libraries; \<open>source_dir\<close> is the listing of the source directory.
\<close>

record ('p, 'd) env =
  ext_str_lower :: "string \<Rightarrow> string"
  ext_feedparser_parse :: "nat \<Rightarrow> 'd pyval \<Rightarrow> error + ('p, 'd) feed_data"
  ext_to_datetime :: "'p \<Rightarrow> error + 'd"
  ext_py_str :: "'d pyval \<Rightarrow> string"
  ext_users_get :: "nat \<Rightarrow> string \<Rightarrow> error + 'd response"
  ext_releases_get :: "string \<Rightarrow> error + 'd response"
  ext_strptime :: "'d pyval \<Rightarrow> error + 'd"
  ext_decode :: "string \<Rightarrow> error + string"
  ext_encode :: "string \<Rightarrow> error + string"
  ext_yaml_safe_load :: "string \<Rightarrow> error + 'd pyval"
  ext_abspath :: "string \<Rightarrow> string"
  source_dir :: dir
  ext_markdown :: "string \<Rightarrow> error + string"
  ext_render :: "string \<Rightarrow> string \<Rightarrow> 'd pyval \<Rightarrow> error + string"

definition layout_template :: "string \<Rightarrow> string" where
  \<open>layout_template body =
     ''{% extends "layout.html" %}'' @ ''{% block body %}'' @ body @ ''{% endblock %}''\<close>

text \<open>
  The body of the loop of \<^verbatim>\<open>main\<close> over the source files, in two parts: what is done
  with a file that is not skipped, and the test that skips the ignored ones.
\<close>

definition render_or_copy ::
  "('p, 'd) env \<Rightarrow> 'd pyval \<Rightarrow> string \<Rightarrow> string \<Rightarrow> string \<Rightarrow> world \<Rightarrow> string \<Rightarrow> error + world" where
  "render_or_copy e context source_path target_path templates_path w fname =
     (let w1 = w\<lparr>stderr := stderr w @ [''Processing '' @ fname @ [CHR 0x0A]]\<rparr>;
          dirname = os_path_dirname fname
      in bind (os_makedirs w1 (os_path_join target_path dirname)) (\<lambda>w2.
         let extension = snd (os_path_splitext fname)
         in if extension = ''.html'' \<or> extension = ''.md''
            then
              bind (read_file w2 (os_path_join source_path fname)) (\<lambda>raw.
              bind (ext_decode e raw) (\<lambda>content.
              bind (if extension = ''.md''
                    then bind (ext_markdown e content) (\<lambda>body. Inr (layout_template body))
                    else Inr content) (\<lambda>content1.
              bind (ext_render e templates_path content1 context) (\<lambda>content2.
              bind (ext_encode e content2) (\<lambda>out.
              write_file w2
                (os_path_join target_path (fst (os_path_splitext fname) @ ''.html'')) out)))))
            else
              shutil_copy w2 (os_path_join source_path fname)
                (os_path_join target_path dirname)))"

definition process_file ::
  "('p, 'd) env \<Rightarrow> 'd pyval \<Rightarrow> string \<Rightarrow> string \<Rightarrow> string \<Rightarrow> world \<Rightarrow> string \<Rightarrow> error + world" where
  "process_file e context source_path target_path templates_path w fname =
     bind (py_getitem context ''pysuerga'') (\<lambda>pysuerga.
     bind (py_getitem pysuerga ''ignore'') (\<lambda>ignore.
     bind (py_contains ignore fname) (\<lambda>ignored.
       if ignored then Inr w
       else render_or_copy e context source_path target_path templates_path w fname)))"

fun files_loop ::
  "('p, 'd) env \<Rightarrow> 'd pyval \<Rightarrow> string \<Rightarrow> string \<Rightarrow> string \<Rightarrow> string list \<Rightarrow> world \<Rightarrow> error + world" where
  "files_loop e context source_path target_path templates_path [] w = Inr w"
| "files_loop e context source_path target_path templates_path (fname # rest) w =
     bind (process_file e context source_path target_path templates_path w fname)
       (files_loop e context source_path target_path templates_path rest)"

text \<open>The list that \<^verbatim>\<open>main\<close> passes to \<^verbatim>\<open>get_context\<close>.\<close>

definition preprocessors :: "('p, 'd::linorder) env \<Rightarrow> 'd preprocessor list" where
  "preprocessors e =
     [(''navbar_add_info'', navbar_add_info (ext_str_lower e)),
      (''blog_add_posts'', blog_add_posts (ext_feedparser_parse e) (ext_to_datetime e)),
      (''maintainers_add_info'', maintainers_add_info (ext_py_str e) (ext_users_get e)),
      (''home_add_releases'', home_add_releases (ext_strptime e) (ext_releases_get e))]"

text \<open>
  \<^verbatim>\<open>main\<close> ends without a \<^verbatim>\<open>return\<close>: the value of a run that raises nothing is \<open>PNone\<close>,
  with the file system it leaves.
\<close>

definition main ::
  "('p, 'd::linorder) env \<Rightarrow> string \<Rightarrow> string \<Rightarrow> string \<Rightarrow> world \<Rightarrow> error + 'd pyval \<times> world" where
  "main e source_path target_path base_url w =
     (let config_fname = os_path_join source_path ''pysuerga.yml'';
          w1 = shutil_rmtree w target_path
      in bind (os_makedirs w1 target_path) (\<lambda>w2.
         let w3 = w2\<lparr>stderr := stderr w2 @ [''Generating context...'' @ [CHR 0x0A]]\<rparr>
         in bind (get_context
                    (\<lambda>fname. bind (read_file w3 fname) (\<lambda>raw.
                              bind (ext_decode e raw) (ext_yaml_safe_load e)))
                    config_fname (preprocessors e) [(''base_url'', PStr base_url)]) (\<lambda>context.
            let w4 = w3\<lparr>stderr := stderr w3 @ [''Context generated'' @ [CHR 0x0A]]\<rparr>
            in bind (py_getitem context ''pysuerga'') (\<lambda>pysuerga.
               bind (py_getitem pysuerga ''templates_path'') (\<lambda>tp.
               bind (case tp of PStr s \<Rightarrow> Inr (os_path_join source_path s)
                              | _ \<Rightarrow> Inl TypeError) (\<lambda>templates_path.
               bind (get_source_files (ext_abspath e) source_path (source_dir e)) (\<lambda>fnames.
               bind (files_loop e context source_path target_path templates_path fnames w4)
                 (\<lambda>w5. Inr (PNone, w5)))))))))"

text \<open>\<^verbatim>\<open>sys.exit(v)\<close>: the exit code of the process (for an int, its low eight bits).\<close>

fun sys_exit :: "'d pyval \<Rightarrow> int" where
  "sys_exit PNone = 0"
| "sys_exit (PInt n) = n mod 256"
| "sys_exit (PBool b) = (if b then 1 else 0)"
| "sys_exit _ = 1"

text \<open>
  The script, \<^verbatim>\<open>sys.exit(main(...))\<close>, with the arguments parsed: an exception that nothing
  catches ends the process with exit code 1.
\<close>

definition script :: "('p, 'd::linorder) env \<Rightarrow> string \<Rightarrow> string \<Rightarrow> string \<Rightarrow> world \<Rightarrow> int" where
  "script e source_path target_path base_url w =
     (case main e source_path target_path base_url w of
        Inl err \<Rightarrow> 1
      | Inr r \<Rightarrow> sys_exit (fst r))"

section \<open>Notions used in the statements\<close>

text \<open>A release is left out when its \<open>prerelease\<close> value is true in a condition.\<close>

definition marked_prerelease :: "'d pyval \<Rightarrow> bool" where
  "marked_prerelease release =
     (case py_getitem release ''prerelease'' of Inl e \<Rightarrow> False | Inr p \<Rightarrow> truthy p)"

text \<open>The specification's words: the tag without one leading \<open>v\<close>.\<close>

definition strip_one_v :: "string \<Rightarrow> string" where
  "strip_one_v tag = (case tag of [] \<Rightarrow> [] | c # cs \<Rightarrow> if c = CHR ''v'' then cs else tag)"

text \<open>The number of entries in the feeds, taken over the calls as the loop makes them.\<close>

fun total_entries ::
  "(nat \<Rightarrow> 'd pyval \<Rightarrow> error + ('p, 'd) feed_data) \<Rightarrow> nat \<Rightarrow> 'd pyval list \<Rightarrow> nat" where
  "total_entries parse i [] = 0"
| "total_entries parse i (feed_url # urls) =
     (case parse i feed_url of Inl e \<Rightarrow> 0 | Inr fd \<Rightarrow> length (entries fd))
       + total_entries parse (Suc i) urls"

text \<open>A name as a directory listing gives it: not empty, and without a separator.\<close>

definition valid_name :: "string \<Rightarrow> bool" where
  "valid_name n = (n \<noteq> [] \<and> CHR ''/'' \<notin> set n)"

text \<open>The names of all the files below a directory.\<close>

fun file_names :: "dir \<Rightarrow> string list" where
  "file_names (Dir fnames subdirs) = fnames @ concat (map (\<lambda>sub. file_names (snd sub)) subdirs)"

text \<open>A relative path with neither a leading nor a trailing separator.\<close>

definition clean_relative :: "string \<Rightarrow> bool" where
  "clean_relative r = (r \<noteq> [] \<and> \<not> startswith_sep r \<and> \<not> endswith_sep r)"

section \<open>Example inputs\<close>

text \<open>\<^verbatim>\<open>str.lower\<close> on ASCII text.\<close>

definition ascii_lower :: "string \<Rightarrow> string" where
  "ascii_lower s =
     map (\<lambda>c. if 65 \<le> (of_char c :: nat) \<and> (of_char c :: nat) \<le> 90
              then char_of (of_char c + (32 :: nat)) else c) s"

definition navbar_items_example :: "unit pyval list" where
  "navbar_items_example = [
      PDict [(''name'', PStr ''About Us''), (''target'', PStr ''/about'')],
      PDict [(''name'', PStr ''Docs''),
             (''target'', PList [PDict [(''name'', PStr ''API''), (''target'', PStr ''/api'')]])]]"

definition navbar_items_shaped :: "unit pyval list" where
  "navbar_items_shaped = [
      PDict [(''name'', PStr ''About Us''), (''target'', PStr ''/about''),
             (''has_subitems'', PBool False), (''slug'', PStr ''about-us'')],
      PDict [(''name'', PStr ''Docs''),
             (''target'', PList [PDict [(''name'', PStr ''API''), (''target'', PStr ''/api'')]]),
             (''has_subitems'', PBool True), (''slug'', PStr ''docs'')]]"

definition navbar_example :: "unit pyval" where
  "navbar_example = PDict [(''navbar'', PList navbar_items_example)]"

definition navbar_example_shaped :: "unit pyval" where
  "navbar_example_shaped = PDict [(''navbar'', PList navbar_items_shaped)]"

subsection \<open>Releases\<close>

definition strptime_example :: "unit pyval \<Rightarrow> error + unit" where
  "strptime_example v = (case v of PStr s \<Rightarrow> Inr () | _ \<Rightarrow> Inl TypeError)"

definition release_items_example :: "unit pyval list" where
  "release_items_example = [
     PDict [(''tag_name'', PStr ''v1.3.0rc0''), (''prerelease'', PBool True),
            (''published_at'', PStr ''2021-06-13T10:00:00Z''), (''assets'', PList [])],
     PDict [(''tag_name'', PStr ''v1.2.0''), (''prerelease'', PBool False),
            (''published_at'', PStr ''2020-12-26T13:47:00Z''), (''assets'', PList [])],
     PDict [(''tag_name'', PStr ''vv0.1''), (''prerelease'', PBool False),
            (''published_at'', PStr ''2011-01-01T00:00:00Z''),
            (''assets'', PList [PDict [(''browser_download_url'', PStr ''https://example.org/a.tgz'')],
                                PDict [(''browser_download_url'', PStr ''https://example.org/b.whl'')]])]]"

definition releases_response_example :: "unit response" where
  "releases_response_example = \<lparr>status_code = 200, json = Inr (PList release_items_example)\<rparr>"

definition releases_get_example :: "string \<Rightarrow> error + unit response" where
  "releases_get_example url = Inr releases_response_example"

definition releases_get_403 :: "string \<Rightarrow> error + unit response" where
  "releases_get_403 url = Inr \<lparr>status_code = 403, json = Inl ValueError\<rparr>"

definition releases_context_example :: "unit pyval" where
  "releases_context_example = PDict [(''base_url'', PStr [])]"

definition release_entries_example :: "unit pyval list" where
  "release_entries_example = [
     PDict [(''name'', PStr ''1.2.0''), (''tag'', PStr ''v1.2.0''), (''published'', PDateTime ()),
            (''url'', PStr [])],
     PDict [(''name'', PStr ''0.1''), (''tag'', PStr ''vv0.1''), (''published'', PDateTime ()),
            (''url'', PStr ''https://example.org/a.tgz'')]]"

definition releases_example_out :: "unit pyval" where
  "releases_example_out =
     PDict [(''base_url'', PStr []), (''releases'', PList release_entries_example)]"

subsection \<open>Maintainers\<close>

definition py_str_example :: "unit pyval \<Rightarrow> string" where
  "py_str_example v = (case v of PStr s \<Rightarrow> s | _ \<Rightarrow> [])"

definition users_example :: "unit pyval list" where
  "users_example = [PStr ''alice'', PStr ''bob'', PStr ''carol'']"

definition maintainers_example :: "unit pyval" where
  "maintainers_example = PDict [(''active'', PList users_example)]"

definition maintainers_context_example :: "unit pyval" where
  "maintainers_context_example = PDict [(''maintainers'', maintainers_example)]"

definition profile_example :: "unit pyval" where
  "profile_example = PDict [(''login'', PStr ''alice'')]"

text \<open>The first request is answered with a profile, the second with the given status.\<close>

definition users_get_example :: "int \<Rightarrow> nat \<Rightarrow> string \<Rightarrow> error + unit response" where
  "users_get_example status i url =
     (if i = 0 \<and> url = ''https://api.github.com/users/alice''
      then Inr \<lparr>status_code = 200, json = Inr profile_example\<rparr>
      else if i = 1 \<and> url = ''https://api.github.com/users/bob''
      then Inr \<lparr>status_code = status, json = Inl ValueError\<rparr>
      else Inl OSError)"

subsection \<open>Blog\<close>

text \<open>Dates are seconds since the epoch here.\<close>

definition entry_example :: "string \<Rightarrow> int \<Rightarrow> (int, int) entry" where
  "entry_example title published =
     \<lparr>e_title = Some (PStr title), e_author = Some (PStr ''me''),
      e_published_parsed = Some published, e_link = Some (PStr ''https://example.org/post''),
      e_description = Some (PStr ''text''), e_summary = Some (PStr ''text'')\<rparr>"

definition feedparser_parse_example :: "nat \<Rightarrow> int pyval \<Rightarrow> error + (int, int) feed_data" where
  "feedparser_parse_example i url =
     (if url = PStr ''https://a.example.org/feed''
      then Inr \<lparr>entries = [entry_example ''a1'' 100, entry_example ''a2'' 300],
                feed_title = Some (PStr ''A'')\<rparr>
      else if url = PStr ''https://b.example.org/feed''
      then Inr \<lparr>entries = [entry_example ''b1'' 200], feed_title = Some (PStr ''B'')\<rparr>
      else Inl OSError)"

definition to_datetime_example :: "int \<Rightarrow> error + int" where
  "to_datetime_example t = Inr t"

definition feed_urls_example :: "int pyval list" where
  "feed_urls_example = [PStr ''https://a.example.org/feed'', PStr ''https://b.example.org/feed'']"

definition blog_example :: "int pyval \<Rightarrow> int pyval" where
  "blog_example num_posts = PDict [(''num_posts'', num_posts), (''feed'', PList feed_urls_example)]"

definition blog_context_example :: "int pyval \<Rightarrow> int pyval" where
  "blog_context_example num_posts = PDict [(''blog'', blog_example num_posts)]"

definition post_dict_example :: "string \<Rightarrow> string \<Rightarrow> int \<Rightarrow> int pyval" where
  "post_dict_example title feed published =
     PDict [(''title'', PStr title), (''author'', PStr ''me''), (''published'', PDateTime published),
            (''feed'', PStr feed), (''link'', PStr ''https://example.org/post''),
            (''description'', PStr ''text''), (''summary'', PStr ''text'')]"

text \<open>The two newest of the three posts, newest first.\<close>

definition blog_posts_example :: "int pyval list" where
  "blog_posts_example = [post_dict_example ''a2'' ''A'' 300, post_dict_example ''b1'' ''B'' 200]"

definition blog_example_out :: "int pyval \<Rightarrow> int pyval" where
  "blog_example_out num_posts = PDict [(''blog'', PDict [(''num_posts'', num_posts),
     (''feed'', PList feed_urls_example), (''posts'', PList blog_posts_example)])]"

subsection \<open>The context loader\<close>

text \<open>A preprocessor without a \<^verbatim>\<open>return\<close> statement.\<close>

definition no_return :: "unit pyval \<Rightarrow> error + unit pyval" where
  "no_return context = Inr PNone"

text \<open>A preprocessor that returns an empty mapping.\<close>

definition returns_empty :: "unit pyval \<Rightarrow> error + unit pyval" where
  "returns_empty context = Inr (PDict [])"

definition safe_load_example :: "string \<Rightarrow> error + unit pyval" where
  "safe_load_example fname =
     (if fname = ''web/pysuerga.yml'' then Inr navbar_example else Inl OSError)"

definition loaded_example :: "unit pyval" where
  "loaded_example = PDict [(''navbar'', PList navbar_items_example), (''base_url'', PStr [])]"

definition loaded_example_shaped :: "unit pyval" where
  "loaded_example_shaped = PDict [(''navbar'', PList navbar_items_shaped), (''base_url'', PStr [])]"

subsection \<open>A whole run\<close>

text \<open>
  The source directory \<open>web\<close> with a page, an image, the configuration, and a style
  sheet and a second page in a subdirectory; one navbar item, no feeds, no maintainers, and a releases listing with the
  single release \<open>v1.2.0\<close>, which has no assets. The image's bare name is in the ignore list.
\<close>

definition ignore_example :: "int pyval list" where
  "ignore_example = [PStr ''logo.png'', PStr ''./pysuerga.yml'']"

definition pysuerga_example :: "int pyval" where
  "pysuerga_example =
     PDict [(''templates_path'', PStr ''_templates''), (''ignore'', PList ignore_example)]"

definition config_example :: "int pyval" where
  "config_example = PDict [
     (''pysuerga'', pysuerga_example),
     (''navbar'', PList [PDict [(''name'', PStr ''About Us''), (''target'', PStr ''/about'')]]),
     (''blog'', PDict [(''num_posts'', PInt 5), (''feed'', PList [])]),
     (''maintainers'', PDict [(''active'', PList [])])]"

definition run_releases_example :: "int response" where
  "run_releases_example = \<lparr>status_code = 200, json = Inr (PList [
     PDict [(''tag_name'', PStr ''v1.2.0''), (''prerelease'', PBool False),
            (''published_at'', PStr ''2020-12-26T13:47:00Z''), (''assets'', PList [])]])\<rparr>"

definition source_dir_example :: dir where
  "source_dir_example =
     Dir [''pysuerga.yml'', ''index.md'', ''logo.png'']
         [(''static'', Dir [''style.css'', ''about.html''] [])]"

definition run_env :: "(int, int) env" where
  "run_env = \<lparr>
     ext_str_lower = ascii_lower,
     ext_feedparser_parse = (\<lambda>i url. Inl OSError),
     ext_to_datetime = Inr,
     ext_py_str = (\<lambda>v. case v of PStr s \<Rightarrow> s | _ \<Rightarrow> []),
     ext_users_get = (\<lambda>i url. Inl OSError),
     ext_releases_get = (\<lambda>url. if url = releases_url then Inr run_releases_example else Inl OSError),
     ext_strptime = (\<lambda>v. case v of PStr s \<Rightarrow> Inr 1608990420 | _ \<Rightarrow> Inl TypeError),
     ext_decode = Inr,
     ext_encode = Inr,
     ext_yaml_safe_load = (\<lambda>s. if s = ''CONFIG'' then Inr config_example else Inl ValueError),
     ext_abspath = (\<lambda>p. ''/home/user/'' @ p),
     source_dir = source_dir_example,
     ext_markdown = (\<lambda>s. Inr (''<p>'' @ s @ ''</p>'')),
     ext_render = (\<lambda>templates content context. Inr content)\<rparr>"

definition world_example :: world where
  "world_example = \<lparr>
     files = [(''web/pysuerga.yml'', ''CONFIG''), (''web/./pysuerga.yml'', ''CONFIG''),
              (''web/./index.md'', ''Hello''), (''web/./logo.png'', ''PNG''),
              (''web/static/style.css'', ''body {}''),
              (''web/static/about.html'', ''<h1>About</h1>''), (''build/old.html'', ''old'')],
     dirs = [''web'', ''web/static'', ''build''],
     stderr = []\<rparr>"

definition world_example_out :: world where
  \<open>world_example_out = \<lparr>
     files = [(''web/pysuerga.yml'', ''CONFIG''), (''web/./pysuerga.yml'', ''CONFIG''),
              (''web/./index.md'', ''Hello''), (''web/./logo.png'', ''PNG''),
              (''web/static/style.css'', ''body {}''),
              (''web/static/about.html'', ''<h1>About</h1>''),
              (''build/./index.html'', ''{% extends "layout.html" %}{% block body %}<p>Hello</p>{% endblock %}''),
              (''build/./logo.png'', ''PNG''),
              (''build/static/style.css'', ''body {}''),
              (''build/static/about.html'', ''<h1>About</h1>'')],
     dirs = [''build/static'', ''build/.'', ''build'', ''web'', ''web/static''],
     stderr = [''Generating context...'' @ [CHR 0x0A], ''Context generated'' @ [CHR 0x0A],
               ''Processing ./index.md'' @ [CHR 0x0A], ''Processing ./logo.png'' @ [CHR 0x0A],
               ''Processing static/style.css'' @ [CHR 0x0A],
               ''Processing static/about.html'' @ [CHR 0x0A]]\<rparr>\<close>

subsection \<open>Single files\<close>

text \<open>The example file system after the page \<open>./index.md\<close> alone is processed, after the page
  \<open>static/about.html\<close> alone, and after the style sheet alone.\<close>

definition world_after_index :: world where
  \<open>world_after_index = world_example\<lparr>
     files := files world_example @ [(''build/./index.html'', ''{% extends "layout.html" %}{% block body %}<p>Hello</p>{% endblock %}'')],
     dirs := ''build/.'' # dirs world_example,
     stderr := [''Processing ./index.md'' @ [CHR 0x0A]]\<rparr>\<close>

definition world_after_about :: world where
  "world_after_about = world_example\<lparr>
     files := files world_example @ [(''build/static/about.html'', ''<h1>About</h1>'')],
     dirs := ''build/static'' # dirs world_example,
     stderr := [''Processing static/about.html'' @ [CHR 0x0A]]\<rparr>"

definition world_after_style :: world where
  "world_after_style = world_example\<lparr>
     files := files world_example @ [(''build/static/style.css'', ''body {}'')],
     dirs := ''build/static'' # dirs world_example,
     stderr := [''Processing static/style.css'' @ [CHR 0x0A]]\<rparr>"

section \<open>Results and errors\<close>

lemma bind_Inr_iff: "bind m f = Inr y \<longleftrightarrow> (\<exists>x. m = Inr x \<and> f x = Inr y)"
  by (cases m) (simp_all add: bind_def)

lemma bind_Inr [simp]: "bind (Inr x) f = f x"
  by (simp add: bind_def)

lemma bind_Inl [simp]: "bind (Inl e) f = Inl e"
  by (simp add: bind_def)

lemma bind_InrE:
  assumes "bind m f = Inr y"
  obtains x where "m = Inr x" and "f x = Inr y"
  using assms by (cases m) (simp_all add: bind_def)

lemma py_getitem_update:
  "py_getitem (PDict (AList.update k v kvs)) k' =
     (if k' = k then Inr v else py_getitem (PDict kvs) k')"
  by (simp add: update_conv')

lemma py_getitem_Inr_dict: "py_getitem v k = Inr x \<Longrightarrow> \<exists>kvs. v = PDict kvs \<and> map_of kvs k = Some x"
  by (cases v) (simp_all split: option.splits)

section \<open>Navbar shaping: every item is shaped, in place\<close>

text \<open>The loop from position \<open>i\<close> leaves the items before \<open>i\<close> and shapes each of the others.\<close>

lemma navbar_loop_Inr:
  "navbar_loop lower i xs = Inr ys \<Longrightarrow>
     length ys = length xs \<and>
     (\<forall>j<length xs. if j < i then ys ! j = xs ! j else navbar_item lower (xs ! j) = Inr (ys ! j))"
proof (induction lower i xs rule: navbar_loop.induct)
  case (1 lower i xs)
  show ?case
  proof (cases "i < length xs")
    case False
    with "1.prems" show ?thesis by (simp add: navbar_loop.simps)
  next
    case True
    with "1.prems" obtain item' where it: "navbar_item lower (xs ! i) = Inr item'"
      and rec: "navbar_loop lower (Suc i) (xs[i := item']) = Inr ys"
      by (subst (asm) navbar_loop.simps) (auto split: sum.splits)
    from "1.IH"[OF True it rec] have both: "length ys = length xs \<and>
        (\<forall>j<length xs. if j < Suc i then ys ! j = (xs[i := item']) ! j
                 else navbar_item lower ((xs[i := item']) ! j) = Inr (ys ! j))"
      unfolding length_list_update .
    from both have len: "length ys = length xs" by (rule conjunct1)
    from both have all: "\<forall>j<length xs. if j < Suc i then ys ! j = (xs[i := item']) ! j
                 else navbar_item lower ((xs[i := item']) ! j) = Inr (ys ! j)"
      by (rule conjunct2)
    show ?thesis
    proof (intro conjI allI impI)
      show "length ys = length xs" by (rule len)
    next
      fix j assume j: "j < length xs"
      with all have a: "if j < Suc i then ys ! j = (xs[i := item']) ! j
                 else navbar_item lower ((xs[i := item']) ! j) = Inr (ys ! j)" by blast
      show "if j < i then ys ! j = xs ! j else navbar_item lower (xs ! j) = Inr (ys ! j)"
      proof (cases "j < i")
        case True
        with a show ?thesis by simp
      next
        case False
        show ?thesis
        proof (cases "j = i")
          case True
          with a j it show ?thesis by simp
        next
          case False
          with \<open>\<not> j < i\<close> a show ?thesis by simp
        qed
      qed
    qed
  qed
qed

text \<open>The loop raises nothing when no item does.\<close>

lemma navbar_loop_total:
  "(\<forall>j<length xs. i \<le> j \<longrightarrow> (\<exists>y. navbar_item lower (xs ! j) = Inr y)) \<Longrightarrow>
   \<exists>ys. navbar_loop lower i xs = Inr ys"
proof (induction lower i xs rule: navbar_loop.induct)
  case (1 lower i xs)
  show ?case
  proof (cases "i < length xs")
    case False
    then show ?thesis by (simp add: navbar_loop.simps)
  next
    case True
    with "1.prems" obtain item' where it: "navbar_item lower (xs ! i) = Inr item'" by auto
    have "\<exists>ys. navbar_loop lower (Suc i) (xs[i := item']) = Inr ys"
      using "1.prems" by (intro "1.IH"[OF True it]) auto
    with True it show ?thesis by (subst navbar_loop.simps) simp
  qed
qed

lemma navbar_item_Inr:
  assumes "navbar_item lower item = Inr item'"
  shows "\<exists>kvs name target. item = PDict kvs \<and> map_of kvs ''name'' = Some (PStr name) \<and>
           map_of kvs ''target'' = Some target \<and>
           item' = PDict (AList.update ''slug'' (PStr (lower (replace_space name)))
                           (AList.update ''has_subitems'' (PBool (is_list target)) kvs))"
proof -
  from assms obtain target name slug item1 where
      t: "py_getitem item ''target'' = Inr target"
    and n: "py_getitem item ''name'' = Inr name"
    and s: "slug_of lower name = Inr slug"
    and i1: "py_setitem item ''has_subitems'' (PBool (is_list target)) = Inr item1"
    and i2: "py_setitem item1 ''slug'' slug = Inr item'"
    unfolding navbar_item_def bind_Inr_iff by blast
  from t obtain kvs where item: "item = PDict kvs" by (cases item) simp_all
  from t item have mt: "map_of kvs ''target'' = Some target" by (simp split: option.splits)
  from n item have mn: "map_of kvs ''name'' = Some name" by (simp split: option.splits)
  from s obtain nm where nm: "name = PStr nm" and sl: "slug = PStr (lower (replace_space nm))"
    by (cases name) auto
  from i1 item have "item1 = PDict (AList.update ''has_subitems'' (PBool (is_list target)) kvs)"
    by auto
  with i2 sl have "item' = PDict (AList.update ''slug'' (PStr (lower (replace_space nm)))
                           (AList.update ''has_subitems'' (PBool (is_list target)) kvs))"
    by auto
  with item mt mn nm show ?thesis by blast
qed

lemma navbar_item_shape:
  assumes "navbar_item lower x = Inr y"
  shows "\<exists>name target.
           py_getitem x ''name'' = Inr (PStr name) \<and> py_getitem x ''target'' = Inr target \<and>
           py_getitem y ''slug'' = Inr (PStr (lower (replace_space name))) \<and>
           py_getitem y ''has_subitems'' = Inr (PBool (is_list target)) \<and>
           (\<forall>k. k \<noteq> ''slug'' \<and> k \<noteq> ''has_subitems'' \<longrightarrow> py_getitem y k = py_getitem x k)"
proof -
  from navbar_item_Inr[OF assms] obtain kvs name target where
    x: "x = PDict kvs" and n: "map_of kvs ''name'' = Some (PStr name)"
    and t: "map_of kvs ''target'' = Some target"
    and y: "y = PDict (AList.update ''slug'' (PStr (lower (replace_space name)))
                           (AList.update ''has_subitems'' (PBool (is_list target)) kvs))"
    by blast
  show ?thesis
    apply (rule exI[of _ name], rule exI[of _ target])
    unfolding x y py_getitem_update using n t by simp
qed

text \<open>An item that is a dict with a str under \<open>name\<close> and a \<open>target\<close> is shaped without error.\<close>

lemma navbar_item_total:
  assumes "map_of kvs ''name'' = Some (PStr name)" and "map_of kvs ''target'' = Some target"
  shows "\<exists>y. navbar_item lower (PDict kvs) = Inr y"
  using assms by (simp add: navbar_item_def)

text \<open>When every item is such a dict, the preprocessor returns.\<close>

lemma navbar_add_info_total:
  assumes "py_getitem context ''navbar'' = Inr (PList xs)"
    and "\<forall>x \<in> set xs. \<exists>kvs name target. x = PDict kvs \<and>
           map_of kvs ''name'' = Some (PStr name) \<and> map_of kvs ''target'' = Some target"
  shows "\<exists>context'. navbar_add_info lower context = Inr context'"
proof -
  have "\<forall>j<length xs. 0 \<le> j \<longrightarrow> (\<exists>y. navbar_item lower (xs ! j) = Inr y)"
    using assms(2) navbar_item_total by (metis nth_mem)
  from navbar_loop_total[OF this] obtain ys where ys: "navbar_loop lower 0 xs = Inr ys" by blast
  from assms(1) obtain kvs where "context = PDict kvs" using py_getitem_Inr_dict by blast
  with assms(1) ys show ?thesis by (simp add: navbar_add_info_def)
qed

text \<open>On ASCII text, replacing the spaces and lower-casing can be done in either order.\<close>

lemma ascii_lower_replace_space: "ascii_lower (replace_space s) = replace_space (ascii_lower s)"
proof -
  have "of_char (CHR '' '') = (32 :: nat)" "of_char (CHR ''-'') = (45 :: nat)" by simp_all
  moreover have "\<And>c. 65 \<le> (of_char c :: nat) \<Longrightarrow> of_char c \<le> (90 :: nat)
      \<Longrightarrow> char_of (of_char c + (32 :: nat)) \<noteq> CHR '' ''"
  proof
    fix c :: char assume a: "65 \<le> (of_char c :: nat)" "of_char c \<le> (90 :: nat)"
      and e: "char_of (of_char c + (32 :: nat)) = CHR '' ''"
    from e have "(of_char (char_of (of_char c + (32 :: nat)) :: char) :: nat) = 32" by simp
    with a show False by (simp add: of_char_of)
  qed
  ultimately show ?thesis
    unfolding ascii_lower_def replace_space_def by (auto simp: comp_def)
qed

text \<open>
  C2. When the navbar preprocessor returns, the \<open>i\<close>-th item of \<^verbatim>\<open>context['navbar']\<close> is
  the \<open>i\<close>-th item it was given (same length, every other key as before), its \<open>slug\<close> is
  the item's \<open>name\<close> with the spaces replaced by hyphens, lower-cased, and its
  \<open>has_subitems\<close> is true exactly when the item's \<open>target\<close> is a list.
\<close>

theorem navbar_add_info_items:
  assumes "navbar_add_info lower context = Inr context'"
  shows "\<exists>navbar navbar' xs ys.
           py_getitem context ''navbar'' = Inr navbar \<and> py_iter navbar = Inr xs \<and>
           py_getitem context' ''navbar'' = Inr navbar' \<and> py_iter navbar' = Inr ys \<and>
           length ys = length xs \<and>
           (\<forall>i<length xs. \<exists>name target.
              py_getitem (xs ! i) ''name'' = Inr (PStr name) \<and>
              py_getitem (xs ! i) ''target'' = Inr target \<and>
              py_getitem (ys ! i) ''slug'' = Inr (PStr (lower (replace_space name))) \<and>
              py_getitem (ys ! i) ''has_subitems'' = Inr (PBool (is_list target)) \<and>
              (\<forall>k. k \<noteq> ''slug'' \<and> k \<noteq> ''has_subitems'' \<longrightarrow>
                   py_getitem (ys ! i) k = py_getitem (xs ! i) k))"
proof -
  from assms obtain navbar where nav: "py_getitem context ''navbar'' = Inr navbar"
    and rest: "(case navbar of
         PList xs \<Rightarrow>
           bind (navbar_loop lower 0 xs) (\<lambda>xs'. py_setitem context ''navbar'' (PList xs'))
       | _ \<Rightarrow>
           bind (py_iter navbar) (\<lambda>items.
             case items of
               [] \<Rightarrow> Inr context
             | item # _ \<Rightarrow> bind (navbar_item lower item) (\<lambda>_. Inl TypeError))) = Inr context'"
    unfolding navbar_add_info_def bind_Inr_iff by blast
  from nav obtain kvs where ctx: "context = PDict kvs" by (cases "context") simp_all
  show ?thesis
  proof (cases "is_list navbar")
    case True
    then obtain xs where xs: "navbar = PList xs" by (cases navbar) simp_all
    with rest obtain ys where loop: "navbar_loop lower 0 xs = Inr ys"
      and set: "py_setitem context ''navbar'' (PList ys) = Inr context'"
      by (auto simp: bind_Inr_iff)
    from set ctx have c': "context' = PDict (AList.update ''navbar'' (PList ys) kvs)" by auto
    from navbar_loop_Inr[OF loop] have len: "length ys = length xs"
      and items: "\<forall>j<length xs. navbar_item lower (xs ! j) = Inr (ys ! j)" by simp_all
    have "py_getitem context' ''navbar'' = Inr (PList ys)"
      unfolding c' py_getitem_update by simp
    moreover have "py_iter (PList xs) = Inr xs" "py_iter (PList ys) = Inr ys" by simp_all
    moreover note nav[unfolded xs] len
    moreover have "\<forall>i<length xs. \<exists>name target.
              py_getitem (xs ! i) ''name'' = Inr (PStr name) \<and>
              py_getitem (xs ! i) ''target'' = Inr target \<and>
              py_getitem (ys ! i) ''slug'' = Inr (PStr (lower (replace_space name))) \<and>
              py_getitem (ys ! i) ''has_subitems'' = Inr (PBool (is_list target)) \<and>
              (\<forall>k. k \<noteq> ''slug'' \<and> k \<noteq> ''has_subitems'' \<longrightarrow>
                   py_getitem (ys ! i) k = py_getitem (xs ! i) k)"
      using items navbar_item_shape by blast
    ultimately show ?thesis by blast
  next
    case False
    with rest obtain items where it: "py_iter navbar = Inr items"
      and r: "(case items of [] \<Rightarrow> Inr context
               | item # _ \<Rightarrow> bind (navbar_item lower item) (\<lambda>_. Inl TypeError)) = Inr context'"
      by (cases navbar) (auto simp: bind_Inr_iff)
    from r have e: "items = []" and c: "context' = context"
      by (auto split: list.splits simp: bind_Inr_iff)
    from nav it e c show ?thesis by auto
  qed
qed

theorem navbar_add_info_items_witness:
  "navbar_add_info ascii_lower navbar_example = Inr navbar_example_shaped \<and>
   (\<exists>navbar navbar' xs ys.
      py_getitem navbar_example ''navbar'' = Inr navbar \<and> py_iter navbar = Inr xs \<and>
      py_getitem navbar_example_shaped ''navbar'' = Inr navbar' \<and> py_iter navbar' = Inr ys \<and>
      length ys = length xs \<and>
      (\<forall>i<length xs. \<exists>name target.
         py_getitem (xs ! i) ''name'' = Inr (PStr name) \<and>
         py_getitem (xs ! i) ''target'' = Inr target \<and>
         py_getitem (ys ! i) ''slug'' = Inr (PStr (ascii_lower (replace_space name))) \<and>
         py_getitem (ys ! i) ''has_subitems'' = Inr (PBool (is_list target)) \<and>
         (\<forall>k. k \<noteq> ''slug'' \<and> k \<noteq> ''has_subitems'' \<longrightarrow>
              py_getitem (ys ! i) k = py_getitem (xs ! i) k)))"
proof -
  have run: "navbar_add_info ascii_lower navbar_example = Inr navbar_example_shaped"
    by code_simp
  from run navbar_add_info_items[OF run] show ?thesis by (rule conjI)
qed

section \<open>Release lookup: the entries, and the rate limit\<close>

lemma release_entry_None:
  "release_entry strptime r = Inr None \<Longrightarrow> marked_prerelease r"
  by (auto simp: release_entry_def marked_prerelease_def bind_Inr_iff split: if_splits)

lemma release_entry_Some:
  assumes "release_entry strptime r = Inr (Some d)"
  shows "\<not> marked_prerelease r \<and>
         (\<exists>tag assets published url.
            py_getitem r ''tag_name'' = Inr (PStr tag) \<and>
            py_getitem r ''assets'' = Inr assets \<and>
            (if truthy assets
             then bind (py_first assets) (\<lambda>asset. py_getitem asset ''browser_download_url'')
             else Inr (PStr [])) = Inr url \<and>
            d = PDict [(''name'', PStr (dropWhile (\<lambda>c. c = CHR ''v'') tag)), (''tag'', PStr tag),
                       (''published'', PDateTime published), (''url'', url)])"
proof -
  from assms obtain prerelease where p: "py_getitem r ''prerelease'' = Inr prerelease"
    by (cases "py_getitem r ''prerelease''") (simp_all add: release_entry_def)
  from assms p have np: "\<not> truthy prerelease"
    by (cases "truthy prerelease") (simp_all add: release_entry_def)
  from assms p np have rest: "bind (py_getitem r ''published_at'') (\<lambda>published_at.
         bind (strptime published_at) (\<lambda>published.
         bind (py_getitem r ''tag_name'') (\<lambda>tag_name.
         bind (lstrip_v tag_name) (\<lambda>name.
         bind (py_getitem r ''assets'') (\<lambda>assets.
         bind (if truthy assets
               then bind (py_first assets) (\<lambda>asset. py_getitem asset ''browser_download_url'')
               else Inr (PStr [])) (\<lambda>url.
         Inr (Some (PDict [(''name'', name), (''tag'', tag_name),
                           (''published'', PDateTime published), (''url'', url)])))))))) = Inr (Some d)"
    by (simp add: release_entry_def)
  from rest obtain published tag_name name assets url where
      t: "py_getitem r ''tag_name'' = Inr tag_name"
    and n: "lstrip_v tag_name = Inr name"
    and a: "py_getitem r ''assets'' = Inr assets"
    and u: "(if truthy assets
               then bind (py_first assets) (\<lambda>asset. py_getitem asset ''browser_download_url'')
               else Inr (PStr [])) = Inr url"
    and d: "d = PDict [(''name'', name), (''tag'', tag_name),
                           (''published'', PDateTime published), (''url'', url)]"
    unfolding bind_Inr_iff by auto
  from n obtain tag where tg: "tag_name = PStr tag"
    and nm: "name = PStr (dropWhile (\<lambda>c. c = CHR ''v'') tag)"
    by (cases tag_name) auto
  from p np have "\<not> marked_prerelease r" by (simp add: marked_prerelease_def)
  with t a u d tg nm show ?thesis by blast
qed

lemma releases_loop_Inr:
  "releases_loop strptime items acc = Inr out \<Longrightarrow>
   \<exists>ds. out = acc @ ds \<and>
        list_all2 (\<lambda>r d. release_entry strptime r = Inr (Some d))
          (filter (\<lambda>r. \<not> marked_prerelease r) items) ds"
proof (induction items arbitrary: acc)
  case Nil
  then show ?case by simp
next
  case (Cons r rest)
  from Cons.prems obtain e where e: "release_entry strptime r = Inr e"
    and k: "(case e of None \<Rightarrow> releases_loop strptime rest acc
             | Some d \<Rightarrow> releases_loop strptime rest (acc @ [d])) = Inr out"
    by (auto simp: bind_Inr_iff)
  show ?case
  proof (cases e)
    case None
    with e have m: "marked_prerelease r" by (simp add: release_entry_None)
    from k None have "releases_loop strptime rest acc = Inr out" by simp
    from Cons.IH[OF this] m show ?thesis by simp
  next
    case (Some d)
    with e release_entry_Some have m: "\<not> marked_prerelease r" by blast
    from k Some have "releases_loop strptime rest (acc @ [d]) = Inr out" by simp
    from Cons.IH[OF this] obtain ds where o: "out = (acc @ [d]) @ ds"
      and l: "list_all2 (\<lambda>r d. release_entry strptime r = Inr (Some d))
          (filter (\<lambda>r. \<not> marked_prerelease r) rest) ds" by blast
    from e Some l m have "list_all2 (\<lambda>r d. release_entry strptime r = Inr (Some d))
          (filter (\<lambda>r. \<not> marked_prerelease r) (r # rest)) (d # ds)" by simp
    with o show ?thesis by (intro exI[of _ "d # ds"]) simp
  qed
qed

text \<open>A tag that does not start with two \<open>v\<close> loses at most the one it starts with.\<close>

lemma lstrip_v_single:
  "\<not> startswith tag ''vv'' \<Longrightarrow> dropWhile (\<lambda>c. c = CHR ''v'') tag = strip_one_v tag"
proof (cases tag)
  case Nil
  then show ?thesis by (simp add: strip_one_v_def)
next
  case (Cons c cs)
  assume n: "\<not> startswith tag ''vv''"
  show ?thesis
  proof (cases cs)
    case Nil
    with Cons show ?thesis by (simp add: strip_one_v_def)
  next
    case (Cons c' cs')
    with \<open>tag = c # cs\<close> n show ?thesis by (auto simp: strip_one_v_def startswith_def)
  qed
qed

text \<open>
  C1 (as amended). When the listing is fetched (no 403) and the preprocessor returns,
  \<^verbatim>\<open>context['releases']\<close> holds one entry for each release of the listing that is not marked
  as a pre-release, in the order of the listing; the entry's \<open>tag\<close> is the release's tag, its
  \<open>name\<close> is the tag without all its leading \<open>v\<close>, and its \<open>url\<close> is the download URL of
  the first asset when the release has assets and the empty string when it has none.
\<close>

theorem home_add_releases_listing:
  assumes run: "home_add_releases strptime get context = Inr context'"
    and resp: "get releases_url = Inr resp"
    and ok: "status_code resp \<noteq> 403"
    and listing: "json resp = Inr listing"
    and items: "py_iter listing = Inr items"
  shows "\<exists>out. py_getitem context' ''releases'' = Inr (PList out) \<and>
           length out = length (filter (\<lambda>r. \<not> marked_prerelease r) items) \<and>
           (\<forall>i<length out. \<exists>tag assets.
              py_getitem (filter (\<lambda>r. \<not> marked_prerelease r) items ! i) ''tag_name'' = Inr (PStr tag) \<and>
              py_getitem (filter (\<lambda>r. \<not> marked_prerelease r) items ! i) ''assets'' = Inr assets \<and>
              py_getitem (out ! i) ''tag'' = Inr (PStr tag) \<and>
              py_getitem (out ! i) ''name'' = Inr (PStr (dropWhile (\<lambda>c. c = CHR ''v'') tag)) \<and>
              py_getitem (out ! i) ''url'' =
                (if truthy assets
                 then bind (py_first assets) (\<lambda>asset. py_getitem asset ''browser_download_url'')
                 else Inr (PStr [])))"
proof -
  let ?kept = "filter (\<lambda>r. \<not> marked_prerelease r) items"
  from run obtain context1 where c1: "py_setitem context ''releases'' (PList []) = Inr context1"
    and r1: "bind (get releases_url) (\<lambda>resp.
       if status_code resp = 403 then Inr context1
       else
         bind (raise_for_status resp) (\<lambda>_.
         bind (json resp) (\<lambda>listing.
         bind (py_iter listing) (\<lambda>items.
         bind (releases_loop strptime items []) (\<lambda>releases.
         py_setitem context1 ''releases'' (PList releases)))))) = Inr context'"
    unfolding home_add_releases_def bind_Inr_iff by blast
  from r1 resp ok listing items obtain out where
      loop: "releases_loop strptime items [] = Inr out"
    and set: "py_setitem context1 ''releases'' (PList out) = Inr context'"
    by (auto simp: bind_Inr_iff)
  from c1 obtain kvs where "context1 = PDict kvs" by (cases "context") auto
  with set have get: "py_getitem context' ''releases'' = Inr (PList out)"
    by (auto simp: update_conv')
  from releases_loop_Inr[OF loop] have
    all: "list_all2 (\<lambda>r d. release_entry strptime r = Inr (Some d)) ?kept out" by simp
  then have len: "length out = length ?kept" by (simp add: list_all2_lengthD)
  have "\<exists>tag assets.
          py_getitem (?kept ! i) ''tag_name'' = Inr (PStr tag) \<and>
          py_getitem (?kept ! i) ''assets'' = Inr assets \<and>
          py_getitem (out ! i) ''tag'' = Inr (PStr tag) \<and>
          py_getitem (out ! i) ''name'' = Inr (PStr (dropWhile (\<lambda>c. c = CHR ''v'') tag)) \<and>
          py_getitem (out ! i) ''url'' =
            (if truthy assets
             then bind (py_first assets) (\<lambda>asset. py_getitem asset ''browser_download_url'')
             else Inr (PStr []))" if i: "i < length out" for i
  proof -
    from i len have "i < length ?kept" by simp
    from list_all2_nthD[OF all this]
    have "release_entry strptime (?kept ! i) = Inr (Some (out ! i))" .
    from release_entry_Some[OF this] obtain tag assets published url where
        "py_getitem (?kept ! i) ''tag_name'' = Inr (PStr tag)"
        "py_getitem (?kept ! i) ''assets'' = Inr assets"
        "(if truthy assets
             then bind (py_first assets) (\<lambda>asset. py_getitem asset ''browser_download_url'')
             else Inr (PStr [])) = Inr url"
        "out ! i = PDict [(''name'', PStr (dropWhile (\<lambda>c. c = CHR ''v'') tag)), (''tag'', PStr tag),
                       (''published'', PDateTime published), (''url'', url)]"
      by blast
    then show ?thesis by simp
  qed
  with get len show ?thesis by blast
qed

theorem home_add_releases_listing_witness:
  "home_add_releases strptime_example releases_get_example releases_context_example
     = Inr releases_example_out \<and>
   releases_get_example releases_url = Inr releases_response_example \<and>
   status_code releases_response_example \<noteq> 403 \<and>
   json releases_response_example = Inr (PList release_items_example) \<and>
   py_iter (PList release_items_example) = Inr release_items_example \<and>
   (\<exists>out. py_getitem releases_example_out ''releases'' = Inr (PList out) \<and>
      length out = length (filter (\<lambda>r. \<not> marked_prerelease r) release_items_example) \<and>
      (\<forall>i<length out. \<exists>tag assets.
         py_getitem (filter (\<lambda>r. \<not> marked_prerelease r) release_items_example ! i) ''tag_name''
           = Inr (PStr tag) \<and>
         py_getitem (filter (\<lambda>r. \<not> marked_prerelease r) release_items_example ! i) ''assets''
           = Inr assets \<and>
         py_getitem (out ! i) ''tag'' = Inr (PStr tag) \<and>
         py_getitem (out ! i) ''name'' = Inr (PStr (dropWhile (\<lambda>c. c = CHR ''v'') tag)) \<and>
         py_getitem (out ! i) ''url'' =
           (if truthy assets
            then bind (py_first assets) (\<lambda>asset. py_getitem asset ''browser_download_url'')
            else Inr (PStr []))))"
proof -
  have run: "home_add_releases strptime_example releases_get_example releases_context_example
     = Inr releases_example_out" by code_simp
  have resp: "releases_get_example releases_url = Inr releases_response_example"
    by (simp add: releases_get_example_def)
  have ok: "status_code releases_response_example \<noteq> 403"
    by (simp add: releases_response_example_def)
  have listing: "json releases_response_example = Inr (PList release_items_example)"
    by (simp add: releases_response_example_def)
  have items: "py_iter (PList release_items_example) = Inr release_items_example" by simp
  from home_add_releases_listing[OF run resp ok listing items] run resp ok listing items
  show ?thesis by blast
qed

text \<open>
  C1 as stated fails: of the tag \<open>vv0.1\<close> the preprocessor makes the name \<open>0.1\<close>, while
  stripping a single leading \<open>v\<close> gives \<open>v0.1\<close>.
\<close>

theorem lstrip_v_not_single_counterexample:
  "home_add_releases strptime_example releases_get_example releases_context_example
     = Inr releases_example_out \<and>
   py_getitem releases_example_out ''releases''
     = Inr (PList [
         PDict [(''name'', PStr ''1.2.0''), (''tag'', PStr ''v1.2.0''),
                (''published'', PDateTime ()), (''url'', PStr [])],
         PDict [(''name'', PStr ''0.1''), (''tag'', PStr ''vv0.1''),
                (''published'', PDateTime ()), (''url'', PStr ''https://example.org/a.tgz'')]]) \<and>
   strip_one_v ''vv0.1'' = ''v0.1'' \<and> ''0.1'' \<noteq> strip_one_v ''vv0.1''"
  by code_simp

text \<open>
  C7. On a 403 response to the request for the releases the preprocessor returns the
  context, with \<open>releases\<close> set to the empty list, and raises nothing.
\<close>

theorem home_add_releases_rate_limit:
  assumes "get releases_url = Inr resp" and "status_code resp = 403"
  shows "home_add_releases strptime get (PDict kvs)
           = Inr (PDict (AList.update ''releases'' (PList []) kvs)) \<and>
         py_getitem (PDict (AList.update ''releases'' (PList []) kvs)) ''releases'' = Inr (PList [])"
  using assms by (simp add: home_add_releases_def update_conv')

theorem home_add_releases_rate_limit_witness:
  "releases_get_403 releases_url = Inr \<lparr>status_code = 403, json = Inl ValueError\<rparr> \<and>
   home_add_releases strptime_example releases_get_403 releases_context_example
     = Inr (PDict [(''base_url'', PStr []), (''releases'', PList [])])"
proof -
  have g: "releases_get_403 releases_url = Inr \<lparr>status_code = 403, json = Inl ValueError\<rparr>"
    by (simp add: releases_get_403_def)
  have "home_add_releases strptime_example releases_get_403 (PDict [(''base_url'', PStr [])])
     = Inr (PDict (AList.update ''releases'' (PList []) [(''base_url'', PStr [])]))"
    using home_add_releases_rate_limit[where get = releases_get_403
        and strptime = strptime_example and kvs = "[(''base_url'', PStr [])]", OF g]
    by simp
  with g show ?thesis by (simp add: releases_context_example_def)
qed

section \<open>Maintainer lookup: the rate limit stops the loop\<close>

text \<open>As long as the lookups succeed, the loop appends their profiles and goes on.\<close>

lemma maintainers_loop_prefix:
  assumes "length profiles = k" and "k \<le> length users"
    and "\<forall>j<k. \<exists>r. get (i + j) (user_url py_str (users ! j)) = Inr r \<and> status_code r \<noteq> 403 \<and>
                   raise_for_status r = Inr () \<and> json r = Inr (profiles ! j)"
  shows "maintainers_loop py_str get i users people =
         maintainers_loop py_str get (i + k) (drop k users) (people @ profiles)"
  using assms
proof (induction k arbitrary: i users people profiles)
  case 0
  then show ?case by simp
next
  case (Suc k)
  from Suc.prems(2) obtain u rest where users: "users = u # rest" by (cases users) auto
  from Suc.prems(1) obtain p ps where profiles: "profiles = p # ps" by (cases profiles) auto
  from Suc.prems(3) obtain r where r: "get i (user_url py_str u) = Inr r"
    "status_code r \<noteq> 403" "raise_for_status r = Inr ()" "json r = Inr p"
    unfolding users profiles by fastforce
  have step: "maintainers_loop py_str get i users people =
              maintainers_loop py_str get (Suc i) rest (people @ [p])"
    unfolding users using r by simp
  have "\<forall>j<k. \<exists>r. get (Suc i + j) (user_url py_str (rest ! j)) = Inr r \<and> status_code r \<noteq> 403 \<and>
                   raise_for_status r = Inr () \<and> json r = Inr (ps ! j)"
  proof (intro allI impI)
    fix j assume "j < k"
    then have "Suc j < Suc k" by simp
    with Suc.prems(3) have "\<exists>r. get (i + Suc j) (user_url py_str (users ! Suc j)) = Inr r \<and>
        status_code r \<noteq> 403 \<and> raise_for_status r = Inr () \<and> json r = Inr (profiles ! Suc j)"
      by blast
    then show "\<exists>r. get (Suc i + j) (user_url py_str (rest ! j)) = Inr r \<and> status_code r \<noteq> 403 \<and>
                   raise_for_status r = Inr () \<and> json r = Inr (ps ! j)"
      unfolding users profiles by simp
  qed
  moreover from Suc.prems(1,2) have "length ps = k" "k \<le> length rest"
    unfolding users profiles by simp_all
  ultimately have "maintainers_loop py_str get (Suc i) rest (people @ [p]) =
         maintainers_loop py_str get (Suc i + k) (drop k rest) ((people @ [p]) @ ps)"
    by (intro Suc.IH) 
  with step show ?case unfolding users profiles by simp
qed

text \<open>
  C4. Let the lookups for the first \<open>k\<close> usernames each return a response that is no 403
  and no error, with the profiles \<open>profiles\<close>, and let \<open>resp\<close> be the response for the next
  username (the \<open>(k+1)\<close>-th). If \<open>resp\<close> is a 403, the preprocessor returns the context
  with exactly these \<open>k\<close> profiles under \<open>people\<close>, in the order of the usernames; no later
  username is looked up (the result does not depend on any later response). If \<open>resp\<close> is
  another client or server error, the preprocessor raises.
\<close>

theorem maintainers_add_info_kth_response:
  assumes maintainers: "py_getitem context ''maintainers'' = Inr maintainers"
    and active: "py_getitem maintainers ''active'' = Inr active"
    and users: "py_iter active = Inr users"
    and k: "k < length users" "length profiles = k"
    and before: "\<forall>j<k. \<exists>r. get j (user_url py_str (users ! j)) = Inr r \<and> status_code r \<noteq> 403 \<and>
                   raise_for_status r = Inr () \<and> json r = Inr (profiles ! j)"
    and kth: "get k (user_url py_str (users ! k)) = Inr resp"
  shows "(status_code resp = 403 \<longrightarrow>
            (\<exists>context' maintainers'.
               maintainers_add_info py_str get context = Inr context' \<and>
               py_getitem context' ''maintainers'' = Inr maintainers' \<and>
               py_getitem maintainers' ''people'' = Inr (PList profiles))) \<and>
         (status_code resp \<noteq> 403 \<and> 400 \<le> status_code resp \<and> status_code resp < 600 \<longrightarrow>
            maintainers_add_info py_str get context = Inl (HTTPError (status_code resp)))"
proof -
  from maintainers obtain kvs where ctx: "context = PDict kvs"
    and mk: "map_of kvs ''maintainers'' = Some maintainers"
    using py_getitem_Inr_dict by blast
  from active obtain m where m: "maintainers = PDict m" and ma: "map_of m ''active'' = Some active"
    using py_getitem_Inr_dict by blast
  let ?m1 = "PDict (AList.update ''people'' (PList []) m)"
  have a1: "py_getitem ?m1 ''active'' = Inr active"
    using ma by (simp add: update_conv')
  from k obtain u rest where dr: "drop k users = u # rest" and u: "u = users ! k"
    by (metis Cons_nth_drop_Suc)
  have "maintainers_loop py_str get 0 users [] =
        maintainers_loop py_str get (0 + k) (drop k users) ([] @ profiles)"
    using k before by (intro maintainers_loop_prefix) auto
  then have loop: "maintainers_loop py_str get 0 users [] =
        maintainers_loop py_str get k (u # rest) profiles"
    using dr by simp
  have unfold: "maintainers_add_info py_str get context =
     bind (maintainers_loop py_str get k (u # rest) profiles) (\<lambda>people.
     bind (py_setitem ?m1 ''people'' (PList people)) (\<lambda>maintainers2.
     py_setitem context ''maintainers'' maintainers2))"
    unfolding maintainers_add_info_def using maintainers m a1 users loop by simp
  show ?thesis
  proof (intro conjI impI)
    assume s: "status_code resp = 403"
    with kth u have "maintainers_loop py_str get k (u # rest) profiles = Inr profiles" by simp
    with unfold have "maintainers_add_info py_str get context =
       Inr (PDict (AList.update ''maintainers''
              (PDict (AList.update ''people'' (PList profiles)
                 (AList.update ''people'' (PList []) m))) kvs))"
      by (simp add: ctx)
    then show "\<exists>context' maintainers'.
               maintainers_add_info py_str get context = Inr context' \<and>
               py_getitem context' ''maintainers'' = Inr maintainers' \<and>
               py_getitem maintainers' ''people'' = Inr (PList profiles)"
      by (simp add: update_conv')
  next
    assume "status_code resp \<noteq> 403 \<and> 400 \<le> status_code resp \<and> status_code resp < 600"
    with kth u have "maintainers_loop py_str get k (u # rest) profiles
                      = Inl (HTTPError (status_code resp))"
      by (simp add: raise_for_status_def)
    with unfold show "maintainers_add_info py_str get context = Inl (HTTPError (status_code resp))"
      by simp
  qed
qed


theorem maintainers_add_info_kth_response_witness:
  "py_getitem maintainers_context_example ''maintainers'' = Inr maintainers_example \<and>
   py_getitem maintainers_example ''active'' = Inr (PList users_example) \<and>
   py_iter (PList users_example) = Inr users_example \<and>
   1 < length users_example \<and> length [profile_example] = 1 \<and>
   users_get_example 403 1 (user_url py_str_example (users_example ! 1))
     = Inr \<lparr>status_code = 403, json = Inl ValueError\<rparr> \<and>
   users_get_example 404 1 (user_url py_str_example (users_example ! 1))
     = Inr \<lparr>status_code = 404, json = Inl ValueError\<rparr> \<and>
   (\<exists>context' maintainers'.
      maintainers_add_info py_str_example (users_get_example 403) maintainers_context_example
        = Inr context' \<and>
      py_getitem context' ''maintainers'' = Inr maintainers' \<and>
      py_getitem maintainers' ''people'' = Inr (PList [profile_example])) \<and>
   maintainers_add_info py_str_example (users_get_example 404) maintainers_context_example
     = Inl (HTTPError 404)"
proof -
  have m: "py_getitem maintainers_context_example ''maintainers'' = Inr maintainers_example"
    by (simp add: maintainers_context_example_def)
  have a: "py_getitem maintainers_example ''active'' = Inr (PList users_example)"
    by (simp add: maintainers_example_def)
  have u: "py_iter (PList users_example) = Inr users_example" by simp
  have k: "1 < length users_example" "length [profile_example] = 1"
    by (simp_all add: users_example_def)
  have before: "\<forall>j<1. \<exists>r. users_get_example status j (user_url py_str_example (users_example ! j))
                   = Inr r \<and> status_code r \<noteq> 403 \<and>
                   raise_for_status r = Inr () \<and> json r = Inr ([profile_example] ! j)" for status
    by (simp add: users_get_example_def user_url_def py_str_example_def users_example_def
        raise_for_status_def)
  have kth: "users_get_example status 1 (user_url py_str_example (users_example ! 1))
     = Inr \<lparr>status_code = status, json = Inl ValueError\<rparr>" for status
    by (simp add: users_get_example_def user_url_def py_str_example_def users_example_def)
  from maintainers_add_info_kth_response[where get = "users_get_example 403"
      and py_str = py_str_example and profiles = "[profile_example]", OF m a u k before kth]
    maintainers_add_info_kth_response[where get = "users_get_example 404"
      and py_str = py_str_example and profiles = "[profile_example]", OF m a u k before kth]
    m a u k kth[of 403] kth[of 404]
  show ?thesis by simp
qed

section \<open>Blog aggregation: sorted and truncated\<close>

text \<open>Every entry of every feed becomes one post.\<close>

lemma entries_loop_length:
  "entries_loop to_datetime fd es posts = Inr out \<Longrightarrow> length out = length posts + length es"
proof (induction es arbitrary: posts)
  case Nil
  then show ?case by simp
next
  case (Cons e es)
  from Cons.prems obtain p where "entries_loop to_datetime fd es (posts @ [p]) = Inr out"
    by (auto simp: bind_Inr_iff)
  from Cons.IH[OF this] show ?case by simp
qed

lemma feeds_loop_length:
  "feeds_loop parse to_datetime i urls posts = Inr out \<Longrightarrow>
     length out = length posts + total_entries parse i urls"
proof (induction urls arbitrary: i posts)
  case Nil
  then show ?case by simp
next
  case (Cons u urls)
  from Cons.prems obtain fd posts' where fd: "parse i u = Inr fd"
    and es: "entries_loop to_datetime fd (entries fd) posts = Inr posts'"
    and rest: "feeds_loop parse to_datetime (Suc i) urls posts' = Inr out"
    by (auto simp: bind_Inr_iff)
  from Cons.IH[OF rest] entries_loop_length[OF es] fd show ?case by simp
qed

lemma sort_posts_length: "length (sort_posts posts) = length posts"
  by (simp add: sort_posts_def)

lemma sort_posts_descending:
  "sorted_wrt (\<lambda>a b. p_published a \<ge> p_published b) (sort_posts posts)"
proof -
  have "sorted (map p_published (sort_key p_published (rev posts)))"
    by (rule sorted_sort_key)
  then have "sorted_wrt (\<lambda>a b. p_published a \<le> p_published b) (sort_key p_published (rev posts))"
    by (simp add: sorted_wrt_map)
  then show ?thesis
    unfolding sort_posts_def by (simp add: sorted_wrt_rev)
qed

text \<open>What is stored under \<open>published\<close> in a post is its date.\<close>

lemma post_dict_published:
  "py_getitem (post_dict p) ''published'' = Inr (PDateTime (p_published p))"
  by (simp add: post_dict_def)

text \<open>The length of \<^verbatim>\<open>xs[:n]\<close>, by what \<open>n\<close> is.\<close>

lemma py_slice_to_Inr:
  assumes "py_slice_to xs v = Inr kept"
  shows "(\<exists>k. kept = take k xs) \<and>
         (\<forall>n. v = PInt n \<and> 0 \<le> n \<longrightarrow> length kept = min (length xs) (nat n)) \<and>
         (\<forall>n. v = PInt n \<and> n < 0 \<longrightarrow> length kept = length xs - nat (- n)) \<and>
         (\<forall>b. v = PBool b \<longrightarrow> length kept = min (length xs) (if b then 1 else 0)) \<and>
         (v = PNone \<longrightarrow> length kept = length xs)"
proof (cases v)
  case PNone
  with assms have "kept = take (length xs) xs" by simp
  with PNone show ?thesis by (metis length_take min.idem pyval.distinct(1,3))
next
  case (PBool b)
  with assms have "kept = take (if b then 1 else 0) xs" by simp
  with PBool show ?thesis by auto
next
  case (PInt n)
  with assms have "kept = (if 0 \<le> n then take (nat n) xs else take (length xs - nat (- n)) xs)"
    by simp
  with PInt show ?thesis by auto
qed (use assms in simp_all)

text \<open>
  C3 (as amended). When the blog preprocessor returns, \<^verbatim>\<open>context['blog']['posts']\<close> is a list
  of posts in which the \<open>published\<close> date of a post is never before that of a post after it.
  Its length is the smaller of \<open>num_posts\<close> and the number of entries of all the feeds when
  \<open>num_posts\<close> is an integer that is not negative; a negative \<open>num_posts\<close> is counted from the
  end of the list (that many posts are dropped), and with no \<open>num_posts\<close> (\<open>None\<close>) all the
  posts are kept.
\<close>

theorem blog_add_posts_sorted_truncated:
  assumes run: "blog_add_posts parse to_datetime context = Inr context'"
    and blog: "py_getitem context ''blog'' = Inr blog"
    and feed: "py_getitem blog ''feed'' = Inr feed" "py_iter feed = Inr urls"
    and num: "py_getitem blog ''num_posts'' = Inr num_posts"
  shows "\<exists>blog' out.
           py_getitem context' ''blog'' = Inr blog' \<and>
           py_getitem blog' ''posts'' = Inr (PList out) \<and>
           (\<forall>i j. i < j \<and> j < length out \<longrightarrow>
              (\<exists>a b. py_getitem (out ! i) ''published'' = Inr (PDateTime a) \<and>
                     py_getitem (out ! j) ''published'' = Inr (PDateTime b) \<and> b \<le> a)) \<and>
           (\<forall>n. num_posts = PInt n \<and> 0 \<le> n \<longrightarrow>
              length out = min (total_entries parse 0 urls) (nat n)) \<and>
           (\<forall>n. num_posts = PInt n \<and> n < 0 \<longrightarrow>
              length out = total_entries parse 0 urls - nat (- n)) \<and>
           (\<forall>b. num_posts = PBool b \<longrightarrow>
              length out = min (total_entries parse 0 urls) (if b then 1 else 0)) \<and>
           (num_posts = PNone \<longrightarrow> length out = total_entries parse 0 urls)"
proof -
  from run blog feed num obtain posts kept where
      loop: "feeds_loop parse to_datetime 0 urls [] = Inr posts"
    and slice: "py_slice_to (sort_posts posts) num_posts = Inr kept"
    and set: "bind (py_setitem blog ''posts'' (PList (map post_dict kept))) (\<lambda>blog'.
              py_setitem context ''blog'' blog') = Inr context'"
    unfolding blog_add_posts_def by (auto elim!: bind_InrE)
  let ?out = "map post_dict kept"
  from blog obtain kvs where ctx: "context = PDict kvs" using py_getitem_Inr_dict by blast
  from feed(1) obtain b where b: "blog = PDict b" using py_getitem_Inr_dict by blast
  from set have c': "context' = PDict (AList.update ''blog''
      (PDict (AList.update ''posts'' (PList ?out) b)) kvs)"
    unfolding ctx b by simp
  have 1: "py_getitem context' ''blog'' = Inr (PDict (AList.update ''posts'' (PList ?out) b))"
    unfolding c' by (simp add: update_conv')
  have 2: "py_getitem (PDict (AList.update ''posts'' (PList ?out) b)) ''posts'' = Inr (PList ?out)"
    by (simp add: update_conv')
  note s = py_slice_to_Inr[OF slice]
  from s obtain k where kept: "kept = take k (sort_posts posts)" by blast
  have sorted: "sorted_wrt (\<lambda>a b. p_published a \<ge> p_published b) kept"
    unfolding kept using sort_posts_descending by (rule sorted_wrt_take)
  have 3: "\<forall>i j. i < j \<and> j < length ?out \<longrightarrow>
              (\<exists>a b. py_getitem (?out ! i) ''published'' = Inr (PDateTime a) \<and>
                     py_getitem (?out ! j) ''published'' = Inr (PDateTime b) \<and> b \<le> a)"
  proof (intro allI impI)
    fix i j assume ij: "i < j \<and> j < length ?out"
    then have lt: "i < j" "j < length kept" "i < length kept" by simp_all
    from sorted_wrt_nth_less[OF sorted lt(1,2)]
    have "p_published (kept ! j) \<le> p_published (kept ! i)" .
    with lt show "\<exists>a b. py_getitem (?out ! i) ''published'' = Inr (PDateTime a) \<and>
                     py_getitem (?out ! j) ''published'' = Inr (PDateTime b) \<and> b \<le> a"
      by (simp add: post_dict_published)
  qed
  have len: "length (sort_posts posts) = total_entries parse 0 urls"
    using feeds_loop_length[OF loop] by (simp add: sort_posts_length)
  from s have 4: "(\<forall>n. num_posts = PInt n \<and> 0 \<le> n \<longrightarrow>
              length ?out = min (total_entries parse 0 urls) (nat n)) \<and>
           (\<forall>n. num_posts = PInt n \<and> n < 0 \<longrightarrow>
              length ?out = total_entries parse 0 urls - nat (- n)) \<and>
           (\<forall>b. num_posts = PBool b \<longrightarrow>
              length ?out = min (total_entries parse 0 urls) (if b then 1 else 0)) \<and>
           (num_posts = PNone \<longrightarrow> length ?out = total_entries parse 0 urls)"
    unfolding len by simp
  from 1 2 3 4 show ?thesis by blast
qed

theorem blog_add_posts_sorted_truncated_witness:
  "blog_add_posts feedparser_parse_example to_datetime_example (blog_context_example (PInt 2))
     = Inr (blog_example_out (PInt 2)) \<and>
   py_getitem (blog_context_example (PInt 2)) ''blog'' = Inr (blog_example (PInt 2)) \<and>
   py_getitem (blog_example (PInt 2)) ''feed'' = Inr (PList feed_urls_example) \<and>
   py_iter (PList feed_urls_example) = Inr feed_urls_example \<and>
   py_getitem (blog_example (PInt 2)) ''num_posts'' = Inr (PInt 2) \<and>
   total_entries feedparser_parse_example 0 feed_urls_example = 3 \<and>
   (\<exists>blog'. py_getitem (blog_example_out (PInt 2)) ''blog'' = Inr blog' \<and>
      py_getitem blog' ''posts'' = Inr (PList blog_posts_example)) \<and>
   py_getitem (blog_posts_example ! 0) ''published'' = Inr (PDateTime 300) \<and>
   py_getitem (blog_posts_example ! 1) ''published'' = Inr (PDateTime 200) \<and>
   length blog_posts_example = min (total_entries feedparser_parse_example 0 feed_urls_example) (nat 2)"
proof -
  have run: "blog_add_posts feedparser_parse_example to_datetime_example
               (blog_context_example (PInt 2)) = Inr (blog_example_out (PInt 2))"
    by code_simp
  have blog: "py_getitem (blog_context_example (PInt 2)) ''blog'' = Inr (blog_example (PInt 2))"
    by (simp add: blog_context_example_def)
  have feed: "py_getitem (blog_example (PInt 2)) ''feed'' = Inr (PList feed_urls_example)"
    "py_iter (PList feed_urls_example) = Inr feed_urls_example"
    by (simp_all add: blog_example_def)
  have num: "py_getitem (blog_example (PInt 2)) ''num_posts'' = Inr (PInt 2)"
    by (simp add: blog_example_def)
  have total: "total_entries feedparser_parse_example 0 feed_urls_example = 3"
    by code_simp
  have out: "py_getitem (blog_example_out (PInt 2)) ''blog''
               = Inr (PDict [(''num_posts'', PInt 2), (''feed'', PList feed_urls_example),
                             (''posts'', PList blog_posts_example)])"
    "py_getitem (PDict [(''num_posts'', PInt 2), (''feed'', PList feed_urls_example),
                        (''posts'', PList blog_posts_example)]) ''posts''
       = Inr (PList blog_posts_example)"
    by (simp_all add: blog_example_out_def)
  have pub: "py_getitem (blog_posts_example ! 0) ''published'' = Inr (PDateTime 300)"
    "py_getitem (blog_posts_example ! 1) ''published'' = Inr (PDateTime 200)"
    by (simp_all add: blog_posts_example_def post_dict_example_def)
  from blog_add_posts_sorted_truncated[OF run blog feed num] out
  have "length blog_posts_example
          = min (total_entries feedparser_parse_example 0 feed_urls_example) (nat 2)"
    by auto
  with run blog feed num total out pub show ?thesis by blast
qed

text \<open>
  C3 as stated fails: with \<open>num_posts = -1\<close> and three entries in the feeds, two posts are
  kept, which is not the smaller of 3 and -1.
\<close>

theorem blog_negative_num_posts_counterexample:
  "blog_add_posts feedparser_parse_example to_datetime_example (blog_context_example (PInt (- 1)))
     = Inr (blog_example_out (PInt (- 1))) \<and>
   py_getitem (PDict [(''num_posts'', PInt (- 1)), (''feed'', PList feed_urls_example),
                      (''posts'', PList blog_posts_example)]) ''posts''
     = Inr (PList blog_posts_example) \<and>
   total_entries feedparser_parse_example 0 feed_urls_example = 3 \<and>
   length blog_posts_example = 2 \<and>
   int (length blog_posts_example)
     \<noteq> min (int (total_entries feedparser_parse_example 0 feed_urls_example)) (- 1)"
  by code_simp

section \<open>The context loader: a preprocessor must return a context\<close>

lemma run_preprocessors_append:
  "run_preprocessors (ps @ qs) c = bind (run_preprocessors ps c) (run_preprocessors qs)"
proof (induction ps arbitrary: c)
  case Nil
  show ?case by simp
next
  case (Cons p ps)
  show ?case
  proof (cases "snd p c")
    case (Inl e)
    then show ?thesis by simp
  next
    case (Inr c')
    with Cons.IH show ?thesis by simp
  qed
qed

lemma update_not_Nil: "AList.update k v al \<noteq> []"
  by (cases al) simp_all

lemma py_setitem_nonempty:
  assumes "py_setitem v k x = Inr c'"
  shows "\<exists>kvs. c' = PDict kvs \<and> kvs \<noteq> []"
proof (cases v)
  case (PDict kvs)
  with assms have "c' = PDict (AList.update k x kvs)" by simp
  with update_not_Nil[of k x kvs] show ?thesis by simp
qed (use assms in simp_all)

lemma py_getitem_nonempty:
  "py_getitem v k = Inr x \<Longrightarrow> \<exists>kvs. v = PDict kvs \<and> kvs \<noteq> []"
  by (cases v) (auto split: option.splits)

lemma navbar_add_info_nonempty:
  assumes "navbar_add_info lower c = Inr c'"
  shows "\<exists>kvs. c' = PDict kvs \<and> kvs \<noteq> []"
proof -
  from assms obtain navbar where nav: "py_getitem c ''navbar'' = Inr navbar"
    and rest: "(case navbar of
         PList xs \<Rightarrow>
           bind (navbar_loop lower 0 xs) (\<lambda>xs'. py_setitem c ''navbar'' (PList xs'))
       | _ \<Rightarrow>
           bind (py_iter navbar) (\<lambda>items.
             case items of
               [] \<Rightarrow> Inr c
             | item # _ \<Rightarrow> bind (navbar_item lower item) (\<lambda>_. Inl TypeError))) = Inr c'"
    unfolding navbar_add_info_def bind_Inr_iff by blast
  show ?thesis
  proof (cases "is_list navbar")
    case True
    then obtain xs where "navbar = PList xs" by (cases navbar) simp_all
    with rest obtain ys where "py_setitem c ''navbar'' (PList ys) = Inr c'"
      by (auto simp: bind_Inr_iff)
    then show ?thesis by (rule py_setitem_nonempty)
  next
    case False
    with rest obtain items where "py_iter navbar = Inr items" and
      "(case items of [] \<Rightarrow> Inr c
        | item # _ \<Rightarrow> bind (navbar_item lower item) (\<lambda>_. Inl TypeError)) = Inr c'"
      by (cases navbar) (auto simp: bind_Inr_iff)
    then have "c' = c" by (auto split: list.splits simp: bind_Inr_iff)
    with nav show ?thesis using py_getitem_nonempty by blast
  qed
qed

lemma blog_add_posts_nonempty:
  assumes "blog_add_posts parse to_datetime c = Inr c'"
  shows "\<exists>kvs. c' = PDict kvs \<and> kvs \<noteq> []"
  using assms unfolding blog_add_posts_def
  by (elim bind_InrE) (rule py_setitem_nonempty)

lemma maintainers_add_info_nonempty:
  assumes "maintainers_add_info py_str get c = Inr c'"
  shows "\<exists>kvs. c' = PDict kvs \<and> kvs \<noteq> []"
  using assms unfolding maintainers_add_info_def
  by (elim bind_InrE) (rule py_setitem_nonempty)

lemma home_add_releases_nonempty:
  assumes "home_add_releases strptime get c = Inr c'"
  shows "\<exists>kvs. c' = PDict kvs \<and> kvs \<noteq> []"
proof -
  from assms obtain c1 resp where c1: "py_setitem c ''releases'' (PList []) = Inr c1"
    and rest: "(if status_code resp = 403 then Inr c1
       else
         bind (raise_for_status resp) (\<lambda>_.
         bind (json resp) (\<lambda>listing.
         bind (py_iter listing) (\<lambda>items.
         bind (releases_loop strptime items []) (\<lambda>releases.
         py_setitem c1 ''releases'' (PList releases)))))) = Inr c'"
    unfolding home_add_releases_def by (elim bind_InrE)
  show ?thesis
  proof (cases "status_code resp = 403")
    case True
    with rest c1 show ?thesis using py_setitem_nonempty by auto
  next
    case False
    with rest have "bind (raise_for_status resp) (\<lambda>_.
         bind (json resp) (\<lambda>listing.
         bind (py_iter listing) (\<lambda>items.
         bind (releases_loop strptime items []) (\<lambda>releases.
         py_setitem c1 ''releases'' (PList releases))))) = Inr c'" by simp
    then show ?thesis by (elim bind_InrE) (rule py_setitem_nonempty)
  qed
qed

text \<open>
  Each of the four preprocessors that \<^verbatim>\<open>main\<close> passes returns, whenever it returns, a
  mapping that is not empty.
\<close>

lemma preprocessors_nonempty:
  assumes p: "p \<in> set (preprocessors e)" and r: "snd p x = Inr x'"
  shows "\<exists>kvs. x' = PDict kvs \<and> kvs \<noteq> []"
proof -
  from p consider "snd p = navbar_add_info (ext_str_lower e)"
    | "snd p = blog_add_posts (ext_feedparser_parse e) (ext_to_datetime e)"
    | "snd p = maintainers_add_info (ext_py_str e) (ext_users_get e)"
    | "snd p = home_add_releases (ext_strptime e) (ext_releases_get e)"
    unfolding preprocessors_def by auto
  then show ?thesis
  proof cases
    case 1
    with r show ?thesis by (simp add: navbar_add_info_nonempty)
  next
    case 2
    with r show ?thesis by (simp add: blog_add_posts_nonempty)
  next
    case 3
    with r show ?thesis by (simp add: maintainers_add_info_nonempty)
  next
    case 4
    with r show ?thesis by (simp add: home_add_releases_nonempty)
  qed
qed

text \<open>
  C5 (as amended). For every list of preprocessors: when the preprocessors before it have
  returned contexts and a preprocessor returns nothing (\<open>None\<close>), \<^verbatim>\<open>get_context\<close> aborts with
  an assertion error whose message names that preprocessor; whatever else a preprocessor
  returns, an empty mapping included, is accepted and handed to the preprocessors after it.
\<close>

theorem get_context_contract:
  assumes "safe_load config_fname = Inr loaded"
    and "py_update loaded kwargs = Inr c0"
    and "run_preprocessors before c0 = Inr c"
  shows "(f c = Inr PNone \<longrightarrow>
            get_context safe_load config_fname (before @ (name, f) # after) kwargs
              = Inl (AssertionError (name @ '' is missing the return statement''))) \<and>
         (\<forall>c'. f c = Inr c' \<and> c' \<noteq> PNone \<longrightarrow>
            get_context safe_load config_fname (before @ (name, f) # after) kwargs
              = run_preprocessors after c')"
  using assms by (simp add: get_context_def run_preprocessors_append)

theorem get_context_contract_witness:
  "safe_load_example ''web/pysuerga.yml'' = Inr navbar_example \<and>
   py_update navbar_example [(''base_url'', PStr [])] = Inr loaded_example \<and>
   run_preprocessors [(''navbar_add_info'', navbar_add_info ascii_lower)] loaded_example
     = Inr loaded_example_shaped \<and>
   no_return loaded_example_shaped = Inr PNone \<and>
   get_context safe_load_example ''web/pysuerga.yml''
     [(''navbar_add_info'', navbar_add_info ascii_lower), (''no_return'', no_return),
      (''home_add_releases'', home_add_releases strptime_example releases_get_example)]
     [(''base_url'', PStr [])]
     = Inl (AssertionError ''no_return is missing the return statement'') \<and>
   returns_empty loaded_example_shaped = Inr (PDict []) \<and>
   get_context safe_load_example ''web/pysuerga.yml''
     [(''navbar_add_info'', navbar_add_info ascii_lower), (''returns_empty'', returns_empty),
      (''home_add_releases'', home_add_releases strptime_example releases_get_example)]
     [(''base_url'', PStr [])]
     = Inr (PDict [(''releases'', PList release_entries_example)])"
proof -
  have load: "safe_load_example ''web/pysuerga.yml'' = Inr navbar_example"
    by (simp add: safe_load_example_def)
  have upd: "py_update navbar_example [(''base_url'', PStr [])] = Inr loaded_example"
    by (simp add: navbar_example_def loaded_example_def)
  have before: "run_preprocessors [(''navbar_add_info'', navbar_add_info ascii_lower)]
                  loaded_example = Inr loaded_example_shaped"
    by code_simp
  have f: "no_return loaded_example_shaped = Inr PNone"
    by (simp add: no_return_def)
  have g: "returns_empty loaded_example_shaped = Inr (PDict [])"
    by (simp add: returns_empty_def)
  have rest: "run_preprocessors
       [(''home_add_releases'', home_add_releases strptime_example releases_get_example)]
       (PDict []) = Inr (PDict [(''releases'', PList release_entries_example)])"
    by code_simp
  note c = get_context_contract[where safe_load = safe_load_example
      and after = "[(''home_add_releases'', home_add_releases strptime_example releases_get_example)]",
      OF load upd before]
  from c[of no_return "''no_return''"] f
  have 1: "get_context safe_load_example ''web/pysuerga.yml''
     [(''navbar_add_info'', navbar_add_info ascii_lower), (''no_return'', no_return),
      (''home_add_releases'', home_add_releases strptime_example releases_get_example)]
     [(''base_url'', PStr [])]
     = Inl (AssertionError ''no_return is missing the return statement'')" by simp
  from c[of returns_empty "''returns_empty''"] g rest
  have 2: "get_context safe_load_example ''web/pysuerga.yml''
     [(''navbar_add_info'', navbar_add_info ascii_lower), (''returns_empty'', returns_empty),
      (''home_add_releases'', home_add_releases strptime_example releases_get_example)]
     [(''base_url'', PStr [])]
     = Inr (PDict [(''releases'', PList release_entries_example)])" by simp
  from load upd before f 1 g 2 show ?thesis by simp
qed

text \<open>
  C5 as stated fails: a preprocessor that returns the empty mapping does not abort the run;
  \<^verbatim>\<open>get_context\<close> returns that mapping.
\<close>

theorem empty_mapping_accepted_counterexample:
  "returns_empty loaded_example = Inr (PDict []) \<and>
   get_context safe_load_example ''web/pysuerga.yml'' [(''returns_empty'', returns_empty)]
     [(''base_url'', PStr [])] = Inr (PDict [])"
  by code_simp

section \<open>The driver: the exit code\<close>

text \<open>\<^verbatim>\<open>main\<close> has no \<^verbatim>\<open>return\<close> statement: what it returns is \<open>None\<close>.\<close>

lemma main_returns_None:
  assumes "main e source_path target_path base_url w = Inr r"
  shows "fst r = PNone"
  using assms unfolding main_def Let_def
  by (elim bind_InrE) auto

text \<open>
  C6. The exit code of the script is 0 when \<^verbatim>\<open>main\<close> returns, and it is not 0 when
  \<^verbatim>\<open>main\<close> raises: success and failure are all that the run reports.
\<close>

theorem script_exit_code:
  "((\<exists>r. main e source_path target_path base_url w = Inr r) \<longrightarrow>
      script e source_path target_path base_url w = 0) \<and>
   ((\<exists>err. main e source_path target_path base_url w = Inl err) \<longrightarrow>
      script e source_path target_path base_url w \<noteq> 0)"
proof (intro conjI impI)
  assume "\<exists>r. main e source_path target_path base_url w = Inr r"
  then obtain r where r: "main e source_path target_path base_url w = Inr r" by blast
  from main_returns_None[OF r] r show "script e source_path target_path base_url w = 0"
    by (simp add: script_def)
next
  assume "\<exists>err. main e source_path target_path base_url w = Inl err"
  then show "script e source_path target_path base_url w \<noteq> 0"
    by (auto simp: script_def)
qed

theorem script_exit_code_witness:
  "main run_env ''web'' ''build'' [] world_example = Inr (PNone, world_example_out) \<and>
   script run_env ''web'' ''build'' [] world_example = 0 \<and>
   main run_env ''nowhere'' ''build'' [] world_example = Inl OSError \<and>
   script run_env ''nowhere'' ''build'' [] world_example \<noteq> 0"
proof -
  have ok: "main run_env ''web'' ''build'' [] world_example = Inr (PNone, world_example_out)"
    by code_simp
  have bad: "main run_env ''nowhere'' ''build'' [] world_example = Inl OSError"
    by code_simp
  from script_exit_code[of run_env "''web''" "''build''" "[]" world_example]
    script_exit_code[of run_env "''nowhere''" "''build''" "[]" world_example] ok bad
  show ?thesis by simp
qed

section \<open>The source walker: the files of the source directory\<close>

text \<open>The path of the source directory relative to itself is \<open>.\<close>.\<close>

lemma commonprefix_same: "commonprefix xs xs = xs"
  by (induction xs) simp_all

lemma os_path_relpath_self: "p \<noteq> [] \<Longrightarrow> os_path_relpath abspath p p = Inr ''.''"
  by (simp add: os_path_relpath_def Let_def commonprefix_same)

lemma os_path_join_curdir: "\<not> startswith_sep name \<Longrightarrow> os_path_join ''.'' name = ''./'' @ name"
  by (simp add: os_path_join_def endswith_sep_def)

lemma os_path_join_not_Nil: "a \<noteq> [] \<Longrightarrow> os_path_join a b \<noteq> []"
  by (cases b) (auto simp: os_path_join_def startswith_sep_def)

text \<open>The generator raises nothing: no directory that is visited has an empty path.\<close>

lemma os_path_relpath_total: "p \<noteq> [] \<Longrightarrow> \<exists>r. os_path_relpath abspath p start = Inr r"
  by (simp add: os_path_relpath_def Let_def split: list.splits)

lemma walk_dir_roots: "root \<noteq> [] \<Longrightarrow> \<forall>t \<in> set (walk_dir root d). fst t \<noteq> []"
proof (induction root d rule: walk_dir.induct)
  case (1 root fnames subdirs)
  have "fst t \<noteq> []" if "sub \<in> set subdirs"
      and "t \<in> set (walk_dir (os_path_join root (fst sub)) (snd sub))" for sub t
  proof -
    from "1.prems" have "os_path_join root (fst sub) \<noteq> []" by (rule os_path_join_not_Nil)
    from "1.IH"[OF that(1) this] that(2) show ?thesis by blast
  qed
  with "1.prems" show ?case by auto
qed

lemma source_files_loop_total:
  "\<forall>t \<in> set triples. fst t \<noteq> [] \<Longrightarrow>
     \<exists>fnames. source_files_loop abspath source_path triples = Inr fnames"
proof (induction triples)
  case Nil
  show ?case by simp
next
  case (Cons t ts)
  then obtain more where m: "source_files_loop abspath source_path ts = Inr more" by auto
  from Cons.prems have "fst t \<noteq> []" by simp
  from os_path_relpath_total[OF this] obtain r where
    "os_path_relpath abspath (fst t) source_path = Inr r" by blast
  with m show ?case by simp
qed

lemma get_source_files_total: "\<exists>fnames. get_source_files abspath source_path d = Inr fnames"
proof (cases "source_path = []")
  case True
  then show ?thesis by (simp add: get_source_files_def os_walk_def)
next
  case False
  from walk_dir_roots[OF this] show ?thesis
    unfolding get_source_files_def os_walk_def using False
    by (simp add: source_files_loop_total)
qed

lemma get_source_files_root:
  assumes "source_path \<noteq> []"
  shows "\<exists>more. get_source_files abspath source_path (Dir fnames subdirs)
           = Inr (map (os_path_join ''.'') fnames @ more)"
proof -
  let ?rest = "concat (map (\<lambda>sub. walk_dir (os_path_join source_path (fst sub)) (snd sub)) subdirs)"
  have w: "os_walk source_path (Dir fnames subdirs) = (source_path, map fst subdirs, fnames) # ?rest"
    using assms by (simp add: os_walk_def)
  from walk_dir_roots[OF assms, of "Dir fnames subdirs"] w
  have "\<forall>t \<in> set ?rest. fst t \<noteq> []" by (simp add: os_walk_def assms)
  from source_files_loop_total[OF this] obtain more where
    "source_files_loop abspath source_path ?rest = Inr more" by blast
  with w assms show ?thesis
    by (simp add: get_source_files_def os_path_relpath_self)
qed

lemma process_file_not_ignored:
  assumes "py_getitem context ''pysuerga'' = Inr pysuerga"
    and "py_getitem pysuerga ''ignore'' = Inr ignore"
    and "py_contains ignore fname = Inr False"
  shows "process_file e context source_path target_path templates_path w fname
           = render_or_copy e context source_path target_path templates_path w fname"
  using assms by (simp add: process_file_def)

text \<open>
  C10. A file \<open>name\<close> that lies in the source directory itself is yielded as \<open>./name\<close>,
  and an ignore list that holds the bare \<open>name\<close>, but not \<open>./name\<close>, does not skip it: the
  loop of \<^verbatim>\<open>main\<close> renders or copies the file.
\<close>

theorem root_file_bare_name_not_ignored:
  assumes "source_path \<noteq> []" and "name \<in> set fnames" and "\<not> startswith_sep name"
    and "py_getitem context ''pysuerga'' = Inr pysuerga"
    and "py_getitem pysuerga ''ignore'' = Inr (PList (before @ PStr name # after))"
    and "PStr (''./'' @ name) \<notin> set before \<union> set after"
  shows "\<exists>yielded.
           get_source_files abspath source_path (Dir fnames subdirs) = Inr yielded \<and>
           ''./'' @ name \<in> set yielded \<and>
           process_file e context source_path target_path templates_path w (''./'' @ name)
             = render_or_copy e context source_path target_path templates_path w (''./'' @ name)"
proof -
  from get_source_files_root[OF assms(1)] obtain more where
    y: "get_source_files abspath source_path (Dir fnames subdirs)
          = Inr (map (os_path_join ''.'') fnames @ more)" by blast
  from assms(2) have "os_path_join ''.'' name \<in> set (map (os_path_join ''.'') fnames @ more)"
    by simp
  then have "''./'' @ name \<in> set (map (os_path_join ''.'') fnames @ more)"
    by (simp only: os_path_join_curdir[OF assms(3)])
  moreover have "py_contains (PList (before @ PStr name # after)) (''./'' @ name) = Inr False"
    using assms(6) by simp
  from process_file_not_ignored[OF assms(4,5) this]
  have "process_file e context source_path target_path templates_path w (''./'' @ name)
             = render_or_copy e context source_path target_path templates_path w (''./'' @ name)" .
  ultimately show ?thesis using y by blast
qed

theorem root_file_bare_name_not_ignored_witness:
  "''web'' \<noteq> [] \<and> ''logo.png'' \<in> set [''pysuerga.yml'', ''index.md'', ''logo.png''] \<and>
   \<not> startswith_sep ''logo.png'' \<and>
   py_getitem config_example ''pysuerga'' = Inr pysuerga_example \<and>
   py_getitem pysuerga_example ''ignore''
     = Inr (PList ([] @ PStr ''logo.png'' # [PStr ''./pysuerga.yml''])) \<and>
   PStr (''./'' @ ''logo.png'') \<notin> set [] \<union> set [PStr ''./pysuerga.yml'' :: int pyval] \<and>
   (\<exists>yielded.
      get_source_files (ext_abspath run_env) ''web''
        (Dir [''pysuerga.yml'', ''index.md'', ''logo.png'']
           [(''static'', Dir [''style.css'', ''about.html''] [])])
        = Inr yielded \<and>
      ''./'' @ ''logo.png'' \<in> set yielded \<and>
      process_file run_env config_example ''web'' ''build'' ''web/_templates'' world_example
          (''./'' @ ''logo.png'')
        = render_or_copy run_env config_example ''web'' ''build'' ''web/_templates'' world_example
          (''./'' @ ''logo.png''))"
proof -
  have 1: "''web'' \<noteq> []" by simp
  have 2: "''logo.png'' \<in> set [''pysuerga.yml'', ''index.md'', ''logo.png'']" by simp
  have 3: "\<not> startswith_sep ''logo.png''" by (simp add: startswith_sep_def)
  have 4: "py_getitem config_example ''pysuerga'' = Inr pysuerga_example"
    by (simp add: config_example_def)
  have 5: "py_getitem pysuerga_example ''ignore''
     = Inr (PList ([] @ PStr ''logo.png'' # [PStr ''./pysuerga.yml'']))"
    by (simp add: pysuerga_example_def ignore_example_def)
  have 6: "PStr (''./'' @ ''logo.png'') \<notin> set [] \<union> set [PStr ''./pysuerga.yml'' :: int pyval]"
    by simp
  from root_file_bare_name_not_ignored[OF 1 2 3 4 5 6] 1 2 3 4 5 6
  show ?thesis by blast
qed

section \<open>Paths: the last separator and the extension\<close>

lemma rfind_last:
  assumes "c \<notin> set ys"
  shows "rfind (xs @ c # ys) c = int (length xs)"
proof -
  have "takeWhile (\<lambda>x. x \<noteq> c) (rev ys @ c # rev xs) = rev ys"
    using assms by (subst takeWhile_append2) auto
  then show ?thesis by (simp add: rfind_def)
qed

lemma rfind_notin: "c \<notin> set p \<Longrightarrow> rfind p c = - 1"
  by (simp add: rfind_def)

lemma rfind_append_notin:
  assumes "c \<notin> set a"
  shows "rfind (s @ a) c = rfind s c"
proof (cases "c \<in> set s")
  case True
  then obtain xs ys where s: "s = xs @ c # ys" and n: "c \<notin> set ys"
    by (meson split_list_last)
  from n assms have "c \<notin> set (ys @ a)" by simp
  from rfind_last[OF this, of xs] rfind_last[OF n, of xs] show ?thesis by (simp add: s)
next
  case False
  with assms show ?thesis by (simp add: rfind_notin)
qed

lemma rfind_bounds: "- 1 \<le> rfind p c \<and> rfind p c < int (length p)"
proof (cases "c \<in> set p")
  case True
  then obtain xs ys where s: "p = xs @ c # ys" and n: "c \<notin> set ys"
    by (meson split_list_last)
  from rfind_last[OF n, of xs] show ?thesis by (simp add: s)
next
  case False
  then show ?thesis by (simp add: rfind_notin)
qed

lemma rfind_drop:
  assumes "rfind p c < int i"
  shows "c \<notin> set (drop i p)"
proof
  assume "c \<in> set (drop i p)"
  then obtain us vs where d: "drop i p = us @ c # vs" and n: "c \<notin> set vs"
    by (meson split_list_last)
  have "p = (take i p @ us) @ c # vs"
    using d by (metis append_assoc append_take_drop_id)
  with rfind_last[OF n, of "take i p @ us"] have r: "rfind p c = int (length (take i p @ us))"
    by simp
  from d have "i < length p" by (cases "i < length p") simp_all
  with r have "int i \<le> rfind p c" by simp
  with assms show False by simp
qed

text \<open>The directory and the last component of a path do not depend on what follows the
  last separator.\<close>

lemma os_path_dirname_append:
  assumes "CHR ''/'' \<notin> set a" and "CHR ''/'' \<notin> set b"
  shows "os_path_dirname (s @ a) = os_path_dirname (s @ b)"
proof -
  have le: "nat (rfind s CHR ''/'' + 1) \<le> length s"
    using rfind_bounds[of s "CHR ''/''"] by linarith
  show ?thesis
    unfolding os_path_dirname_def rfind_append_notin[OF assms(1)] rfind_append_notin[OF assms(2)]
    using le by simp
qed

lemma os_path_basename_append:
  assumes "CHR ''/'' \<notin> set a"
  shows "os_path_basename (s @ a) = os_path_basename s @ a"
proof -
  have le: "nat (rfind s CHR ''/'' + 1) \<le> length s"
    using rfind_bounds[of s "CHR ''/''"] by linarith
  show ?thesis
    unfolding os_path_basename_def rfind_append_notin[OF assms] using le by simp
qed

text \<open>The two parts that \<^verbatim>\<open>splitext\<close> returns make up the path, and the extension holds
  no separator.\<close>

lemma os_path_splitext_parts:
  "fst (os_path_splitext p) @ snd (os_path_splitext p) = p"
  by (simp add: os_path_splitext_def Let_def)

lemma os_path_splitext_ext_no_sep: "CHR ''/'' \<notin> set (snd (os_path_splitext p))"
proof (cases "rfind p CHR ''.'' > rfind p CHR ''/'' \<and>
            list_ex (\<lambda>k. p ! k \<noteq> CHR ''.'')
              [nat (rfind p CHR ''/'' + 1) ..< nat (rfind p CHR ''.'')]")
  case True
  then have "rfind p CHR ''/'' < int (nat (rfind p CHR ''.''))"
    using rfind_bounds[of p "CHR ''/''"] by simp
  from rfind_drop[OF this] True show ?thesis
    by (simp add: os_path_splitext_def Let_def)
next
  case False
  then show ?thesis by (auto simp: os_path_splitext_def Let_def)
qed

section \<open>Rendering: the output path and the content\<close>

lemma os_makedirs_Inr:
  assumes "os_makedirs w p = Inr w'"
  shows "files w' = files w" and "stderr w' = stderr w" and "set (dirs w') = insert p (set (dirs w))"
  using assms by (auto simp: os_makedirs_def split: if_splits)

lemma write_file_Inr:
  assumes "write_file w p c = Inr w'"
  shows "files w' = AList.update p c (files w)" and "dirs w' = dirs w" and "stderr w' = stderr w"
  using assms by (auto simp: write_file_def split: if_splits)

lemma read_file_Inr: "read_file w p = Inr c \<longleftrightarrow> map_of (files w) p = Some c"
  by (simp add: read_file_def split: option.splits)

text \<open>The layout block that a converted \<open>.md\<close> file is put into, letter by letter.\<close>

lemma layout_template_literal:
  \<open>layout_template body
     = ''{% extends "layout.html" %}{% block body %}'' @ body @ ''{% endblock %}''\<close>
  by (simp add: layout_template_def)

text \<open>
  C9. A file that is not ignored and whose extension is \<open>.md\<close> or \<open>.html\<close> is read and
  decoded; a \<open>.md\<close> file is converted by the markdown library and the result is put
  between \<^verbatim>\<open>{% extends "layout.html" %}{% block body %}\<close> and \<^verbatim>\<open>{% endblock %}\<close>; the text
  is rendered with the context and written to the path of the source file under the target
  directory with the extension replaced by \<open>.html\<close>: the same directory and the same base
  name.
\<close>

theorem rendered_as_html:
  assumes ignore: "py_getitem context ''pysuerga'' = Inr pysuerga"
      "py_getitem pysuerga ''ignore'' = Inr ignore" "py_contains ignore fname = Inr False"
    and split: "os_path_splitext fname = (stem, ext)"
    and ext: "ext = ''.md'' \<or> ext = ''.html''"
    and run: "process_file e context source_path target_path templates_path w fname = Inr w'"
  shows \<open>\<exists>raw content template rendered out.
           read_file w (os_path_join source_path fname) = Inr raw \<and>
           ext_decode e raw = Inr content \<and>
           (if ext = ''.md''
            then \<exists>body. ext_markdown e content = Inr body \<and>
                   template = ''{% extends "layout.html" %}{% block body %}'' @ body
                                @ ''{% endblock %}''
            else template = content) \<and>
           ext_render e templates_path template context = Inr rendered \<and>
           ext_encode e rendered = Inr out \<and>
           map_of (files w') (os_path_join target_path (stem @ ''.html'')) = Some out \<and>
           fname = stem @ ext \<and>
           os_path_dirname (stem @ ''.html'') = os_path_dirname fname \<and>
           os_path_basename fname = os_path_basename stem @ ext \<and>
           os_path_basename (stem @ ''.html'') = os_path_basename stem @ ''.html''\<close>
proof -
  let ?w1 = "w\<lparr>stderr := stderr w @ [''Processing '' @ fname @ [CHR 0x0A]]\<rparr>"
  from split have parts: "fst (os_path_splitext fname) = stem" "snd (os_path_splitext fname) = ext"
    by simp_all
  from run
  have "render_or_copy e context source_path target_path templates_path w fname = Inr w'"
    by (simp add: process_file_not_ignored[OF ignore])
  then obtain w2 where mk: "os_makedirs ?w1 (os_path_join target_path (os_path_dirname fname)) = Inr w2"
    and rest: "bind (read_file w2 (os_path_join source_path fname)) (\<lambda>raw.
              bind (ext_decode e raw) (\<lambda>content.
              bind (if ext = ''.md''
                    then bind (ext_markdown e content) (\<lambda>body. Inr (layout_template body))
                    else Inr content) (\<lambda>content1.
              bind (ext_render e templates_path content1 context) (\<lambda>content2.
              bind (ext_encode e content2) (\<lambda>out.
              write_file w2 (os_path_join target_path (stem @ ''.html'')) out))))) = Inr w'"
    unfolding render_or_copy_def Let_def parts using ext by (auto elim!: bind_InrE)
  from rest obtain raw content template rendered out where
      rd: "read_file w2 (os_path_join source_path fname) = Inr raw"
    and dc: "ext_decode e raw = Inr content"
    and tp: "(if ext = ''.md''
                then bind (ext_markdown e content) (\<lambda>body. Inr (layout_template body))
                else Inr content) = Inr template"
    and rn: "ext_render e templates_path template context = Inr rendered"
    and en: "ext_encode e rendered = Inr out"
    and wr: "write_file w2 (os_path_join target_path (stem @ ''.html'')) out = Inr w'"
    by (elim bind_InrE)
  from os_makedirs_Inr(1)[OF mk] have f2: "files w2 = files w" by simp
  from rd f2 have 1: "read_file w (os_path_join source_path fname) = Inr raw"
    by (simp add: read_file_def)
  from tp have 3: \<open>if ext = ''.md''
            then \<exists>body. ext_markdown e content = Inr body \<and>
                   template = ''{% extends "layout.html" %}{% block body %}'' @ body
                                @ ''{% endblock %}''
            else template = content\<close>
    unfolding layout_template_literal by (auto split: if_splits elim!: bind_InrE)
  from write_file_Inr(1)[OF wr]
  have 6: "map_of (files w') (os_path_join target_path (stem @ ''.html'')) = Some out"
    by (simp add: update_conv')
  from os_path_splitext_parts[of fname] parts have 7: "fname = stem @ ext" by simp
  from os_path_splitext_ext_no_sep[of fname] parts have ns: "CHR ''/'' \<notin> set ext" by simp
  have nh: "CHR ''/'' \<notin> set ''.html''" by simp
  from os_path_dirname_append[OF nh ns, of stem] 7
  have 8: "os_path_dirname (stem @ ''.html'') = os_path_dirname fname" by simp
  from os_path_basename_append[OF ns, of stem] 7
  have 9: "os_path_basename fname = os_path_basename stem @ ext" by simp
  from os_path_basename_append[OF nh, of stem]
  have 10: "os_path_basename (stem @ ''.html'') = os_path_basename stem @ ''.html''" .
  from 1 dc 3 rn en 6 7 8 9 10 show ?thesis by blast
qed

theorem rendered_as_html_witness:
  \<open>py_getitem config_example ''pysuerga'' = Inr pysuerga_example \<and>
   py_getitem pysuerga_example ''ignore'' = Inr (PList ignore_example) \<and>
   py_contains (PList ignore_example) ''./index.md'' = Inr False \<and>
   os_path_splitext ''./index.md'' = (''./index'', ''.md'') \<and>
   process_file run_env config_example ''web'' ''build'' ''web/_templates'' world_example
     ''./index.md'' = Inr world_after_index \<and>
   map_of (files world_after_index) (os_path_join ''build'' (''./index'' @ ''.html''))
     = Some ''{% extends "layout.html" %}{% block body %}<p>Hello</p>{% endblock %}'' \<and>
   py_contains (PList ignore_example) ''static/about.html'' = Inr False \<and>
   os_path_splitext ''static/about.html'' = (''static/about'', ''.html'') \<and>
   process_file run_env config_example ''web'' ''build'' ''web/_templates'' world_example
     ''static/about.html'' = Inr world_after_about \<and>
   map_of (files world_after_about) (os_path_join ''build'' (''static/about'' @ ''.html''))
     = Some ''<h1>About</h1>''\<close>
proof -
  have p: "py_getitem config_example ''pysuerga'' = Inr pysuerga_example"
    by (simp add: config_example_def)
  have i: "py_getitem pysuerga_example ''ignore'' = Inr (PList ignore_example)"
    by (simp add: pysuerga_example_def)
  have c1: "py_contains (PList ignore_example) ''./index.md'' = Inr False"
    by (simp add: ignore_example_def)
  have s1: "os_path_splitext ''./index.md'' = (''./index'', ''.md'')" by code_simp
  have r1: "process_file run_env config_example ''web'' ''build'' ''web/_templates''
              world_example ''./index.md'' = Inr world_after_index" by code_simp
  have c2: "py_contains (PList ignore_example) ''static/about.html'' = Inr False"
    by (simp add: ignore_example_def)
  have s2: "os_path_splitext ''static/about.html'' = (''static/about'', ''.html'')" by code_simp
  have r2: "process_file run_env config_example ''web'' ''build'' ''web/_templates''
              world_example ''static/about.html'' = Inr world_after_about" by code_simp
  have e: "ext_decode run_env = Inr" "ext_encode run_env = Inr"
    "ext_markdown run_env = (\<lambda>s. Inr (''<p>'' @ s @ ''</p>''))"
    "ext_render run_env = (\<lambda>templates content context. Inr content)"
    by (simp_all add: run_env_def)
  have f: "read_file world_example (os_path_join ''web'' ''./index.md'') = Inr ''Hello''"
    "read_file world_example (os_path_join ''web'' ''static/about.html'') = Inr ''<h1>About</h1>''"
    by code_simp+
  from rendered_as_html[OF p i c1 s1 _ r1] f(1)
  have 1: \<open>map_of (files world_after_index) (os_path_join ''build'' (''./index'' @ ''.html''))
     = Some ''{% extends "layout.html" %}{% block body %}<p>Hello</p>{% endblock %}''\<close>
    by (auto simp: e)
  from rendered_as_html[OF p i c2 s2 _ r2] f(2)
  have 2: "map_of (files world_after_about) (os_path_join ''build'' (''static/about'' @ ''.html''))
     = Some ''<h1>About</h1>''"
    by (auto simp: e)
  from p i c1 s1 r1 1 c2 s2 r2 2 show ?thesis by blast
qed

section \<open>The paths that the walker yields\<close>

text \<open>
  Whatever \<^verbatim>\<open>abspath\<close> returns, a relative path computed by \<^verbatim>\<open>relpath\<close> is \<open>.\<close> or a
  sequence of components joined by single separators; a yielded path is such a path, a
  separator and a file name.
\<close>

lemma split_sep_no_sep: "x \<in> set (split_sep s) \<Longrightarrow> CHR ''/'' \<notin> set x"
proof (induction s arbitrary: x)
  case Nil
  then show ?case by simp
next
  case (Cons c cs)
  show ?case
  proof (cases "c = CHR ''/''")
    case True
    with Cons show ?thesis by auto
  next
    case False
    show ?thesis
    proof (cases "split_sep cs")
      case Nil
      with False Cons.prems show ?thesis by simp
    next
      case (Cons y ys)
      with False Cons.prems have "x = c # y \<or> x \<in> set ys" by simp
      moreover from Cons Cons.IH have "CHR ''/'' \<notin> set y" "\<And>z. z \<in> set ys \<Longrightarrow> CHR ''/'' \<notin> set z"
        by simp_all
      ultimately show ?thesis using False by auto
    qed
  qed
qed

lemma valid_name_clean: "valid_name c \<Longrightarrow> clean_relative c"
proof -
  assume v: "valid_name c"
  then obtain a as where c: "c = a # as" by (cases c) (simp_all add: valid_name_def)
  from c obtain y ys where r: "rev c = y # ys" by (cases "rev c") simp_all
  then have "y \<in> set c" by (metis list.set_intros(1) set_rev)
  with v have "y \<noteq> CHR ''/''" by (auto simp: valid_name_def)
  with r have "\<not> endswith_sep c" by (simp add: endswith_sep_def)
  moreover from v c have "\<not> startswith_sep c" by (auto simp: startswith_sep_def valid_name_def)
  ultimately show ?thesis using c by (simp add: clean_relative_def)
qed

lemma endswith_sep_append:
  "b \<noteq> [] \<Longrightarrow> endswith_sep (a @ b) = endswith_sep b"
  by (cases "rev b") (simp_all add: endswith_sep_def)

lemma os_path_join_clean:
  assumes "clean_relative a" and "valid_name c"
  shows "os_path_join a c = a @ ''/'' @ c" and "clean_relative (os_path_join a c)"
proof -
  from assms(2) have c: "clean_relative c" by (rule valid_name_clean)
  with assms(1) show j: "os_path_join a c = a @ ''/'' @ c"
    by (simp add: os_path_join_def clean_relative_def)
  from assms(1) obtain x xs where a: "a = x # xs" by (cases a) (simp_all add: clean_relative_def)
  from c have "c \<noteq> []" by (simp add: clean_relative_def)
  then have "endswith_sep (a @ ''/'' @ c) = endswith_sep c"
    using endswith_sep_append[of c "a @ ''/''"] by simp
  with c assms(1) show "clean_relative (os_path_join a c)"
    unfolding j by (simp add: clean_relative_def a startswith_sep_def)
qed

lemma foldl_join_clean:
  "clean_relative a \<Longrightarrow> \<forall>c \<in> set p. valid_name c \<Longrightarrow> clean_relative (foldl os_path_join a p)"
proof (induction p arbitrary: a)
  case Nil
  then show ?case by simp
next
  case (Cons c p)
  from Cons.prems have "clean_relative (os_path_join a c)"
    by (simp add: os_path_join_clean(2))
  moreover from Cons.prems have "\<forall>c \<in> set p. valid_name c" by simp
  ultimately have "clean_relative (foldl os_path_join (os_path_join a c) p)" by (rule Cons.IH)
  then show ?case by (simp only: foldl_Cons)
qed

lemma os_path_relpath_clean:
  assumes "os_path_relpath abspath p start = Inr rel"
  shows "clean_relative rel"
proof -
  let ?start_list = "filter (\<lambda>x. x \<noteq> []) (split_sep (abspath start))"
  let ?path_list = "filter (\<lambda>x. x \<noteq> []) (split_sep (abspath p))"
  let ?i = "length (commonprefix ?start_list ?path_list)"
  let ?rel_list = "replicate (length ?start_list - ?i) ''..'' @ drop ?i ?path_list"
  have v: "\<forall>c \<in> set ?rel_list. valid_name c"
  proof
    fix c assume "c \<in> set ?rel_list"
    then have "c = ''..'' \<or> c \<in> set (drop ?i ?path_list)" by auto
    then show "valid_name c"
    proof
      assume "c = ''..''"
      then show ?thesis by (simp add: valid_name_def)
    next
      assume "c \<in> set (drop ?i ?path_list)"
      then have "c \<in> set ?path_list" by (rule in_set_dropD)
      then show ?thesis using split_sep_no_sep by (auto simp: valid_name_def)
    qed
  qed
  have r: "(case ?rel_list of [] \<Rightarrow> Inr ''.'' | a # q \<Rightarrow> Inr (foldl os_path_join a q))
             = (Inr rel :: error + string)"
    using assms unfolding os_path_relpath_def Let_def by (cases "p = []") simp_all
  show ?thesis
  proof (cases ?rel_list)
    case Nil
    with r have "rel = ''.''" by simp
    then show ?thesis by (simp add: clean_relative_def startswith_sep_def endswith_sep_def)
  next
    case (Cons a q)
    with r have rel: "rel = foldl os_path_join a q" by simp
    from v Cons have "valid_name a" "\<forall>c \<in> set q. valid_name c" by simp_all
    then show ?thesis unfolding rel by (simp add: foldl_join_clean valid_name_clean)
  qed
qed

lemma source_files_loop_member:
  "source_files_loop abspath source_path triples = Inr fnames \<Longrightarrow> fname \<in> set fnames \<Longrightarrow>
   \<exists>t \<in> set triples. \<exists>rel name. os_path_relpath abspath (fst t) source_path = Inr rel \<and>
      name \<in> set (snd (snd t)) \<and> fname = os_path_join rel name"
proof (induction triples arbitrary: fnames)
  case Nil
  then show ?case by simp
next
  case (Cons t ts)
  from Cons.prems(1) obtain root more where
      root: "os_path_relpath abspath (fst t) source_path = Inr root"
    and more: "source_files_loop abspath source_path ts = Inr more"
    and fn: "fnames = map (os_path_join root) (snd (snd t)) @ more"
    by (auto elim!: bind_InrE)
  from Cons.prems(2) fn consider "fname \<in> os_path_join root ` set (snd (snd t))" | "fname \<in> set more"
    by auto
  then show ?case
  proof cases
    case 1
    with root show ?thesis by auto
  next
    case 2
    from Cons.IH[OF more 2] show ?thesis by auto
  qed
qed

lemma walk_dir_files:
  "t \<in> set (walk_dir root d) \<Longrightarrow> set (snd (snd t)) \<subseteq> set (file_names d)"
proof (induction root d arbitrary: t rule: walk_dir.induct)
  case (1 root fnames subdirs)
  from "1.prems" consider "t = (root, map fst subdirs, fnames)"
    | sub where "sub \<in> set subdirs" "t \<in> set (walk_dir (os_path_join root (fst sub)) (snd sub))"
    by auto
  then show ?case
  proof cases
    case 1
    then show ?thesis by simp
  next
    case 2
    from "1.IH"[OF 2] 2(1) show ?thesis by auto
  qed
qed

lemma get_source_files_shape:
  assumes "get_source_files abspath source_path d = Inr fnames" and "fname \<in> set fnames"
    and "\<forall>n \<in> set (file_names d). valid_name n"
  shows "\<exists>rel name. clean_relative rel \<and> valid_name name \<and> fname = rel @ ''/'' @ name"
proof -
  from source_files_loop_member[OF assms(1)[unfolded get_source_files_def] assms(2)]
  obtain t rel name where t: "t \<in> set (os_walk source_path d)"
    and rel: "os_path_relpath abspath (fst t) source_path = Inr rel"
    and name: "name \<in> set (snd (snd t))" and f: "fname = os_path_join rel name"
    by blast
  from t have "t \<in> set (walk_dir source_path d)" by (simp add: os_walk_def split: if_splits)
  from walk_dir_files[OF this] name assms(3) have v: "valid_name name" by blast
  from os_path_relpath_clean[OF rel] have c: "clean_relative rel" .
  from os_path_join_clean(1)[OF c v] f c v show ?thesis by blast
qed

section \<open>Copying: the same content at the mirrored path\<close>

lemma os_path_dirname_shape:
  assumes "clean_relative rel" and "valid_name name"
  shows "os_path_dirname (rel @ ''/'' @ name) = rel"
proof -
  from assms(2) have n: "CHR ''/'' \<notin> set name" by (simp add: valid_name_def)
  from assms(1) obtain x xs where rel: "rel = x # xs" and x: "x \<noteq> CHR ''/''"
    by (cases rel) (auto simp: clean_relative_def startswith_sep_def)
  from assms(1) obtain y ys where r: "rev rel = y # ys" and y: "y \<noteq> CHR ''/''"
    by (cases "rev rel") (auto simp: clean_relative_def endswith_sep_def)
  have i: "rfind (rel @ ''/'' @ name) CHR ''/'' = int (length rel)"
    using rfind_last[OF n, of rel] by simp
  have head: "take (nat (int (length rel) + 1)) (rel @ ''/'' @ name) = rel @ ''/''"
    by (simp add: nat_add_distrib)
  have "rel @ ''/'' \<noteq> replicate (length (rel @ ''/'')) CHR ''/''"
    using x by (simp add: rel)
  moreover have "rstrip_sep (rel @ ''/'') = rel"
  proof -
    have "rstrip_sep (rel @ ''/'') = rev (dropWhile (\<lambda>c. c = CHR ''/'') (y # ys))"
      by (simp add: rstrip_sep_def r)
    also have "\<dots> = rev (y # ys)" using y by simp
    also have "\<dots> = rel" using r by (metis rev_rev_ident)
    finally show ?thesis .
  qed
  ultimately show ?thesis
    unfolding os_path_dirname_def i head Let_def by simp
qed

lemma os_path_join_relative:
  assumes "\<not> startswith_sep b"
  shows "\<exists>t. os_path_join a b = t @ b \<and> (\<forall>c. \<not> startswith_sep c \<longrightarrow> os_path_join a c = t @ c)"
proof (cases "a = [] \<or> endswith_sep a")
  case True
  then show ?thesis using assms by (intro exI[of _ a]) (simp add: os_path_join_def)
next
  case False
  then show ?thesis using assms by (intro exI[of _ "a @ ''/''"]) (simp add: os_path_join_def)
qed

lemma copy_destination:
  assumes "clean_relative rel" and "valid_name name"
  shows "os_path_join (os_path_join target_path rel)
           (os_path_basename (os_path_join source_path (rel @ ''/'' @ name)))
         = os_path_join target_path (rel @ ''/'' @ name)"
proof -
  from assms(2) have n: "CHR ''/'' \<notin> set name" by (simp add: valid_name_def)
  from assms(1) obtain x xs where rel: "rel = x # xs" and x: "x \<noteq> CHR ''/''"
    by (cases rel) (auto simp: clean_relative_def startswith_sep_def)
  have nr: "\<not> startswith_sep rel" "\<not> startswith_sep (rel @ ''/'' @ name)"
    using x by (simp_all add: rel startswith_sep_def)
  from os_path_join_relative[OF nr(2), of source_path] obtain s where
    s: "os_path_join source_path (rel @ ''/'' @ name) = s @ rel @ ''/'' @ name" by blast
  have "rfind ((s @ rel) @ CHR ''/'' # name) CHR ''/'' = int (length (s @ rel))"
    using n by (rule rfind_last)
  then have b: "os_path_basename (os_path_join source_path (rel @ ''/'' @ name)) = name"
    unfolding s os_path_basename_def by (simp add: nat_add_distrib)
  from os_path_join_relative[OF nr(1), of target_path] obtain t where
    t1: "os_path_join target_path rel = t @ rel"
    and t2: "\<And>c. \<not> startswith_sep c \<Longrightarrow> os_path_join target_path c = t @ c" by blast
  from assms(1) have "\<not> endswith_sep rel" "rel \<noteq> []" by (simp_all add: clean_relative_def)
  then have "\<not> endswith_sep (t @ rel)" by (simp add: endswith_sep_append)
  moreover from assms(2) have "\<not> startswith_sep name"
    using valid_name_clean by (auto simp: clean_relative_def)
  ultimately have "os_path_join (t @ rel) name = t @ rel @ ''/'' @ name"
    using \<open>rel \<noteq> []\<close> by (simp add: os_path_join_def)
  with t2[OF nr(2)] show ?thesis unfolding b t1 by simp
qed

lemma shutil_copy_into_dir:
  assumes "shutil_copy w src dst = Inr w'" and "dst \<in> set (dirs w)"
  shows "\<exists>content. map_of (files w) src = Some content \<and>
           os_path_join dst (os_path_basename src) \<noteq> src \<and>
           files w' = AList.update (os_path_join dst (os_path_basename src)) content (files w)"
proof -
  have "shutil_copy w src dst = bind (read_file w src) (\<lambda>content.
          if os_path_join dst (os_path_basename src) = src then Inl OSError
          else write_file w (os_path_join dst (os_path_basename src)) content)"
    using assms(2) by (simp add: shutil_copy_def Let_def cong: if_cong)
  with assms(1) obtain content where r: "read_file w src = Inr content"
    and k: "(if os_path_join dst (os_path_basename src) = src then Inl OSError
             else write_file w (os_path_join dst (os_path_basename src)) content) = Inr w'"
    by (auto elim!: bind_InrE)
  from k have ne: "os_path_join dst (os_path_basename src) \<noteq> src"
    and wr: "write_file w (os_path_join dst (os_path_basename src)) content = Inr w'"
    by (simp_all split: if_splits)
  from r write_file_Inr(1)[OF wr] ne show ?thesis by (auto simp: read_file_Inr)
qed

text \<open>
  C8. A file that the walker yields, that is not ignored and whose extension is neither
  \<open>.html\<close> nor \<open>.md\<close> is copied: once it is processed, the file at the same relative path
  under the target directory holds what the source file holds.
\<close>

theorem copied_byte_identical:
  assumes yielded: "get_source_files abspath source_path d = Inr fnames" "fname \<in> set fnames"
    and names: "\<forall>n \<in> set (file_names d). valid_name n"
    and ignore: "py_getitem context ''pysuerga'' = Inr pysuerga"
      "py_getitem pysuerga ''ignore'' = Inr ignore" "py_contains ignore fname = Inr False"
    and ext: "snd (os_path_splitext fname) \<noteq> ''.html''" "snd (os_path_splitext fname) \<noteq> ''.md''"
    and run: "process_file e context source_path target_path templates_path w fname = Inr w'"
  shows "\<exists>content.
           map_of (files w) (os_path_join source_path fname) = Some content \<and>
           map_of (files w') (os_path_join source_path fname) = Some content \<and>
           map_of (files w') (os_path_join target_path fname) = Some content"
proof -
  let ?w1 = "w\<lparr>stderr := stderr w @ [''Processing '' @ fname @ [CHR 0x0A]]\<rparr>"
  let ?src = "os_path_join source_path fname"
  let ?dst = "os_path_join target_path (os_path_dirname fname)"
  from get_source_files_shape[OF yielded names] obtain rel name where
    c: "clean_relative rel" and v: "valid_name name" and f: "fname = rel @ ''/'' @ name"
    by blast
  from run have "render_or_copy e context source_path target_path templates_path w fname = Inr w'"
    by (simp add: process_file_not_ignored[OF ignore])
  then obtain w2 where mk: "os_makedirs ?w1 ?dst = Inr w2"
    and cp: "shutil_copy w2 ?src ?dst = Inr w'"
    unfolding render_or_copy_def Let_def using ext by (auto elim!: bind_InrE)
  from os_makedirs_Inr[OF mk] have f2: "files w2 = files w" and d2: "?dst \<in> set (dirs w2)"
    by simp_all
  from shutil_copy_into_dir[OF cp d2] obtain content where
      s: "map_of (files w2) ?src = Some content"
    and ne: "os_path_join ?dst (os_path_basename ?src) \<noteq> ?src"
    and fw: "files w' = AList.update (os_path_join ?dst (os_path_basename ?src)) content (files w2)"
    by blast
  have dest: "os_path_join ?dst (os_path_basename ?src) = os_path_join target_path fname"
    unfolding f os_path_dirname_shape[OF c v] by (rule copy_destination[OF c v])
  from s f2 have 1: "map_of (files w) ?src = Some content" by simp
  from fw ne s have 2: "map_of (files w') ?src = Some content"
    by (simp add: update_conv')
  from fw dest have 3: "map_of (files w') (os_path_join target_path fname) = Some content"
    by (simp add: update_conv')
  from 1 2 3 show ?thesis by blast
qed

theorem copied_byte_identical_witness:
  "get_source_files (ext_abspath run_env) ''web'' source_dir_example
     = Inr [''./pysuerga.yml'', ''./index.md'', ''./logo.png'', ''static/style.css'',
            ''static/about.html''] \<and>
   ''static/style.css'' \<in> set [''./pysuerga.yml'', ''./index.md'', ''./logo.png'',
            ''static/style.css'', ''static/about.html''] \<and>
   list_all valid_name (file_names source_dir_example) \<and>
   py_getitem config_example ''pysuerga'' = Inr pysuerga_example \<and>
   py_getitem pysuerga_example ''ignore'' = Inr (PList ignore_example) \<and>
   py_contains (PList ignore_example) ''static/style.css'' = Inr False \<and>
   snd (os_path_splitext ''static/style.css'') \<noteq> ''.html'' \<and>
   snd (os_path_splitext ''static/style.css'') \<noteq> ''.md'' \<and>
   process_file run_env config_example ''web'' ''build'' ''web/_templates'' world_example
     ''static/style.css'' = Inr world_after_style \<and>
   map_of (files world_example) (os_path_join ''web'' ''static/style.css'') = Some ''body {}'' \<and>
   map_of (files world_after_style) (os_path_join ''web'' ''static/style.css'') = Some ''body {}'' \<and>
   map_of (files world_after_style) (os_path_join ''build'' ''static/style.css'') = Some ''body {}''"
proof -
  have y: "get_source_files (ext_abspath run_env) ''web'' source_dir_example
     = Inr [''./pysuerga.yml'', ''./index.md'', ''./logo.png'', ''static/style.css'',
            ''static/about.html'']" by code_simp
  have m: "''static/style.css'' \<in> set [''./pysuerga.yml'', ''./index.md'', ''./logo.png'',
            ''static/style.css'', ''static/about.html'']" by simp
  have l: "list_all valid_name (file_names source_dir_example)"
    by (simp add: source_dir_example_def valid_name_def)
  then have n: "\<forall>n \<in> set (file_names source_dir_example). valid_name n"
    by (simp add: list_all_iff)
  have p: "py_getitem config_example ''pysuerga'' = Inr pysuerga_example"
    by (simp add: config_example_def)
  have i: "py_getitem pysuerga_example ''ignore'' = Inr (PList ignore_example)"
    by (simp add: pysuerga_example_def)
  have c: "py_contains (PList ignore_example) ''static/style.css'' = Inr False"
    by (simp add: ignore_example_def)
  have x: "snd (os_path_splitext ''static/style.css'') \<noteq> ''.html''"
    "snd (os_path_splitext ''static/style.css'') \<noteq> ''.md''" by code_simp+
  have r: "process_file run_env config_example ''web'' ''build'' ''web/_templates''
             world_example ''static/style.css'' = Inr world_after_style" by code_simp
  have s: "map_of (files world_example) (os_path_join ''web'' ''static/style.css'')
             = Some ''body {}''" by code_simp
  from copied_byte_identical[OF y m n p i c x r] s
  have "map_of (files world_after_style) (os_path_join ''web'' ''static/style.css'')
          = Some ''body {}'' \<and>
        map_of (files world_after_style) (os_path_join ''build'' ''static/style.css'')
          = Some ''body {}''" by auto
  with y m l p i c x r s show ?thesis by blast
qed

end
